theory Spec2Isabelle
  imports Main
begin

section \<open>Data model of the game gateway\<close>

text \<open>
  The gateway (class \<open>GameGateway\<close>) is the socket.io entry point of the game server.
  Its own state is the two timer maps \<open>connectTimers\<close> and \<open>disconnectTimers\<close>; through
  the socket.io server it reads and writes the room index and emits messages; through
  injected services it reads and writes the persistent store.

  The injected services (\<open>GameService\<close>, \<open>UserService\<close>, \<open>InviteService\<close>,
  \<open>LogService\<close>, \<open>JwtService\<close>) and the constant \<open>GAME_FINISHED\<close> are not part of the
  gateway's source. They are parameters of the model, collected in the record
  \<open>services\<close>: every theorem below holds for all services.

  What the model fixes beyond the source:
  \<^item> A handler runs to completion before the next event is handled; the interleaving
    of handlers at their \<open>await\<close>s is not modelled.
  \<^item> An exception that a handler does not catch ends that handler and nothing else;
    what the handler did before stays done.
  \<^item> The room index is written by \<open>join\<close> and \<open>leave\<close>, as the gateway calls them,
    and by the transport when a socket closes: socket.io removes a closing socket
    from all its rooms (\<open>leaveAll\<close> in its \<open>onclose\<close>) before it reports the
    disconnect to the gateway. The transport is not part of this repository; that
    one step of it is modelled (\<open>leaveAll\<close>, \<open>onclose\<close>).
  \<^item> The handshake token is chosen by the client and may be any string. The ids of
    users and games are primary keys issued by the store; none of them is the name
    of a property that every object inherits, so the lookups keyed by them
    (\<open>disconnectTimers[user.id]\<close>, \<open>rooms[game.id]\<close>) are lookups in a map.
  \<^item> When a caught error has a \<open>response\<close>, its \<open>message\<close> is a string, the type
    that \<open>sendError\<close> declares for it.
  \<^item> \<open>JSON.parse(JSON.stringify(game))\<close> is the identity on the fields of a game
    that the gateway reads.
  \<^item> The handlers \<open>getAllGames\<close>, \<open>getOpenedGame\<close>, \<open>repeatGame\<close>, \<open>acceptInvite\<close> and
    \<open>declineInvite\<close> and the helpers \<open>sendInvite\<close> and \<open>updateCurrentUser\<close> are left
    out; the eleven game action handlers, the two connection handlers and the two
    timer callbacks are modelled.
\<close>

type_synonym token = string
type_synonym userId = string
type_synonym gameId = string
type_synonym socketId = string

text \<open>What the gateway reads of a populated game reference: \<open>.id\<close> and \<open>.number\<close>.\<close>

record gameRef =
  ref_id :: gameId
  ref_number :: int

text \<open>The fields of a user the gateway reads. \<open>currentGames\<close> may be undefined.\<close>

record user =
  user_id :: userId
  openedGame :: "gameRef option"
  currentGames :: "gameRef list option"
  currentWatch :: "gameRef option"

text \<open>The \<open>Log\<close> entity, as the log service returns it.\<close>

record log =
  log_id :: string
  log_type :: string
  log_text :: string
  log_gameId :: gameId
  log_userId :: userId
  log_createdAt :: nat

text \<open>The argument object of \<open>logService.create\<close>: \<open>{type, user, gameId, text?}\<close>.\<close>

record logReq =
  req_type :: string
  req_user :: user
  req_gameId :: gameId
  req_text :: "string option"

record game =
  game_id :: gameId
  game_number :: int
  game_name :: string
  game_state :: int
  game_players :: "userId list"
  game_logs :: "log list"

text \<open>
  Payloads of outbound messages. \<open>View v\<close> is a projection computed by the game
  service (\<open>parseGameForUser\<close>, \<open>parseGameForAllUsers\<close>), \<open>Null\<close> is the literal
  \<open>null\<close>, \<open>GameNumber n\<close> a bare game number, \<open>ErrorMessage m\<close> the object
  \<open>{message: m}\<close>, and \<open>NoPayload\<close> an emit without arguments.
\<close>

datatype 'v payload = View 'v | Null | GameNumber int | ErrorMessage string | NoPayload

text \<open>
  An emitted message: \<open>ToSocket sid ev p\<close> is \<open>socket.emit(ev, p)\<close> on the socket
  \<open>sid\<close>, \<open>ToAll ev p\<close> is \<open>server.emit(ev, p)\<close>.
\<close>

datatype 'v emit = ToSocket socketId string "'v payload" | ToAll string "'v payload"

text \<open>
  What a collaborator throws, as far as the gateway looks at it. Every \<open>catch\<close>
  block of the gateway reads \<open>error.response.message\<close>. \<open>Response message\<close> is an
  error that has a \<open>response\<close> with that message (the framework's \<open>HttpException\<close>
  and the errors derived from it); \<open>NoResponse\<close> is an error without a \<open>response\<close>
  (any other exception), on which reading \<open>error.response.message\<close> throws in turn.
\<close>

datatype failure = NoResponse | Response string

text \<open>
  The collaborators. A call that throws is \<open>Inl error\<close>; a rejected call persists
  nothing. A call that succeeds returns its result and the new store.
  \<open>getUserIdByToken\<close> is \<open>None\<close> when the token yields no user id; \<open>findOneByUserId\<close>
  and \<open>findOne\<close> are \<open>None\<close> when the lookup yields \<open>null\<close>.
\<close>

record ('db, 'v) services =
  getUserIdByToken :: "token \<Rightarrow> userId option"
  findOneByUserId :: "'db \<Rightarrow> userId \<Rightarrow> user option"
  findOne :: "'db \<Rightarrow> int \<Rightarrow> game option"
  parseGameForUser :: "game \<Rightarrow> user \<Rightarrow> 'v"
  parseGameForAllUsers :: "game \<Rightarrow> 'v"
  logCreate :: "'db \<Rightarrow> logReq \<Rightarrow> failure + (log \<times> 'db)"
  gs_newGame :: "'db \<Rightarrow> string \<Rightarrow> userId \<Rightarrow> failure + (game \<times> 'db)"
  gs_joinGame :: "'db \<Rightarrow> user \<Rightarrow> int \<Rightarrow> failure + (game \<times> 'db)"
  gs_openGame :: "'db \<Rightarrow> user \<Rightarrow> int \<Rightarrow> failure + (game \<times> 'db)"
  gs_watchGame :: "'db \<Rightarrow> user \<Rightarrow> int \<Rightarrow> failure + (game \<times> 'db)"
  gs_leaveGame :: "'db \<Rightarrow> user \<Rightarrow> int \<Rightarrow> failure + (game \<times> 'db)"
  gs_closeGame :: "'db \<Rightarrow> user \<Rightarrow> int \<Rightarrow> failure + (game \<times> 'db)"
  gs_removeGame :: "'db \<Rightarrow> user \<Rightarrow> int \<Rightarrow> failure + 'db"
  gs_toggleReady :: "'db \<Rightarrow> user \<Rightarrow> int \<Rightarrow> failure + (game \<times> 'db)"
  gs_updateOption :: "'db \<Rightarrow> user \<Rightarrow> int \<Rightarrow> string \<Rightarrow> string \<Rightarrow> failure + (game \<times> 'db)"
  gs_startGame :: "'db \<Rightarrow> int \<Rightarrow> failure + (game \<times> 'db)"
  gs_makeMove :: "'db \<Rightarrow> string \<Rightarrow> int \<Rightarrow> userId \<Rightarrow> failure + (game \<times> 'db)"
  closeInvites :: "'db \<Rightarrow> gameId \<Rightarrow> failure + 'db"
  GAME_FINISHED :: int

text \<open>
  Timers. \<open>setTimeout\<close> registers a callback with a deadline and returns a handle;
  the two callbacks of the gateway are the guard clearing of \<open>handleConnection\<close> and
  the disconnect commit of \<open>handleDisconnect\<close>, which closes over \<open>client\<close> and \<open>user\<close>.
\<close>

datatype timerAction = ClearConnectTimer token | CommitDisconnect socketId user

record timer =
  tid :: nat
  deadline :: nat
  action :: timerAction

text \<open>
  The state: the clock in milliseconds, the timers the event loop holds, the
  gateway's two timer maps, the room index (\<open>server.sockets.adapter.rooms\<close>: the
  sockets of a room in the order they joined, an absent room being the empty list),
  the identity attached to each socket (\<open>socket.user\<close>, absent until a guard has
  attached it; the sockets of a room are connected sockets, so the lookup
  \<open>server.sockets.connected[socketId]\<close> always finds one), the persistent store, the log entries created so far (the arguments
  of the \<open>logService.create\<close> calls that succeeded), the messages emitted so far and
  the lines written to the error logger.
\<close>

record ('db, 'v) state =
  now :: nat
  nextTimer :: nat
  pending :: "timer list"
  connectTimers :: "token \<rightharpoonup> nat"
  disconnectTimers :: "userId \<rightharpoonup> nat"
  rooms :: "gameId \<Rightarrow> socketId list"
  socketUser :: "socketId \<Rightarrow> user option"
  db :: 'db
  logs :: "logReq list"
  outbox :: "'v emit list"
  loggerErrors :: "string list"

section \<open>Timers and rooms\<close>

definition setTimeout :: "timerAction \<Rightarrow> nat \<Rightarrow> ('db, 'v) state \<Rightarrow> nat \<times> ('db, 'v) state" where
  "setTimeout a ms s =
     (nextTimer s,
      s\<lparr>nextTimer := Suc (nextTimer s),
        pending := pending s @ [\<lparr>tid = nextTimer s, deadline = now s + ms, action = a\<rparr>]\<rparr>)"

definition clearTimeout :: "nat \<Rightarrow> ('db, 'v) state \<Rightarrow> ('db, 'v) state" where
  "clearTimeout i s = s\<lparr>pending := filter (\<lambda>t. tid t \<noteq> i) (pending s)\<rparr>"

definition join :: "socketId \<Rightarrow> gameId \<Rightarrow> ('db, 'v) state \<Rightarrow> ('db, 'v) state" where
  "join sid room s =
     s\<lparr>rooms := (rooms s)(room := (if sid \<in> set (rooms s room) then rooms s room
                                      else rooms s room @ [sid]))\<rparr>"

definition leave :: "socketId \<Rightarrow> gameId \<Rightarrow> ('db, 'v) state \<Rightarrow> ('db, 'v) state" where
  "leave sid room s = s\<lparr>rooms := (rooms s)(room := filter (\<lambda>x. x \<noteq> sid) (rooms s room))\<rparr>"

text \<open>\<open>socket.leaveAll()\<close> of the transport: the socket leaves every room.\<close>

definition leaveAll :: "socketId \<Rightarrow> ('db, 'v) state \<Rightarrow> ('db, 'v) state" where
  "leaveAll sid s = s\<lparr>rooms := (\<lambda>room. filter (\<lambda>x. x \<noteq> sid) (rooms s room))\<rparr>"

text \<open>
  The two timer maps are plain objects (\<open>{}\<close>) indexed by strings. Used as a
  condition, \<open>this.connectTimers[token]\<close> is true when a timer is stored under the
  token, and also when the token is the name of a property that the object inherits
  from \<open>Object.prototype\<close>: the lookup then yields that property, a function (or, for
  \<open>__proto__\<close>, the prototype object), which is truthy.
\<close>

definition objectPrototypeKeys :: "string list" where
  "objectPrototypeKeys =
     [''constructor'', ''__defineGetter__'', ''__defineSetter__'', ''hasOwnProperty'',
      ''__lookupGetter__'', ''__lookupSetter__'', ''isPrototypeOf'', ''propertyIsEnumerable'',
      ''toString'', ''valueOf'', ''__proto__'', ''toLocaleString'']"

definition inherited :: "string \<Rightarrow> bool" where
  "inherited key \<longleftrightarrow> key \<in> set objectPrototypeKeys"

definition guarded :: "('db, 'v) state \<Rightarrow> token \<Rightarrow> bool" where
  "guarded s tok \<longleftrightarrow> connectTimers s tok \<noteq> None \<or> inherited tok"

section \<open>Emitting\<close>

definition clientEmit :: "socketId \<Rightarrow> string \<Rightarrow> 'v payload \<Rightarrow> ('db, 'v) state \<Rightarrow> ('db, 'v) state" where
  "clientEmit sid ev p s = s\<lparr>outbox := outbox s @ [ToSocket sid ev p]\<rparr>"

definition serverEmit :: "string \<Rightarrow> 'v payload \<Rightarrow> ('db, 'v) state \<Rightarrow> ('db, 'v) state" where
  "serverEmit ev p s = s\<lparr>outbox := outbox s @ [ToAll ev p]\<rparr>"

definition sendError :: "socketId \<Rightarrow> string \<Rightarrow> ('db, 'v) state \<Rightarrow> ('db, 'v) state" where
  "sendError client message s =
     clientEmit client ''error-message'' (ErrorMessage message)
       (s\<lparr>loggerErrors := loggerErrors s @ [message]\<rparr>)"

text \<open>
  The statement of the \<open>catch\<close> blocks,
  \<open>this.sendError({ client, message: error.response.message })\<close>. On an error without
  \<open>response\<close> the argument throws before \<open>sendError\<close> is called: nothing is logged,
  nothing is sent, and the handler ends there with an exception nobody catches.
\<close>

definition reportError :: "socketId \<Rightarrow> failure \<Rightarrow> ('db, 'v) state \<Rightarrow> ('db, 'v) state" where
  "reportError client error s =
     (case error of
        NoResponse \<Rightarrow> s
      | Response message \<Rightarrow> sendError client message s)"

text \<open>
  \<open>sendGameToGameUsers\<close>: nothing when the room does not exist; otherwise, for each
  socket id of the room in order, an \<open>update-opened-game\<close> to that socket carrying
  \<open>parseGameForUser\<close> of the game and the socket's user, when the socket has a user.
\<close>

definition gameMessages :: "('db, 'v) services \<Rightarrow> (socketId \<Rightarrow> user option) \<Rightarrow> game \<Rightarrow> socketId list \<Rightarrow> 'v emit list" where
  "gameMessages svc su g sids =
     concat (map (\<lambda>sid. case su sid of
                          None \<Rightarrow> []
                        | Some userInGame \<Rightarrow>
                            [ToSocket sid ''update-opened-game''
                               (View (parseGameForUser svc g userInGame))]) sids)"

definition sendGameToGameUsers :: "('db, 'v) services \<Rightarrow> game \<Rightarrow> ('db, 'v) state \<Rightarrow> ('db, 'v) state" where
  "sendGameToGameUsers svc g s =
     (if rooms s (game_id g) = [] then s
      else s\<lparr>outbox := outbox s @ gameMessages svc (socketUser s) g (rooms s (game_id g))\<rparr>)"

definition kickMessages :: "(socketId \<Rightarrow> user option) \<Rightarrow> socketId list \<Rightarrow> 'v emit list" where
  "kickMessages su sids =
     concat (map (\<lambda>sid. case su sid of
                          None \<Rightarrow> []
                        | Some userInGame \<Rightarrow> [ToSocket sid ''update-opened-game'' Null]) sids)"

definition kickUsersFromGame :: "game \<Rightarrow> ('db, 'v) state \<Rightarrow> ('db, 'v) state" where
  "kickUsersFromGame g s =
     (if rooms s (game_id g) = [] then s
      else s\<lparr>outbox := outbox s @ kickMessages (socketUser s) (rooms s (game_id g))\<rparr>)"

text \<open>
  \<open>logService.create\<close>: on success the store is the service's new store and the
  request is recorded as a created log entry.
\<close>

definition createLog :: "('db, 'v) services \<Rightarrow> logReq \<Rightarrow> ('db, 'v) state \<Rightarrow> failure + (log \<times> ('db, 'v) state)" where
  "createLog svc req s =
     (case logCreate svc (db s) req of
        Inl error \<Rightarrow> Inl error
      | Inr (l, db') \<Rightarrow> Inr (l, s\<lparr>db := db', logs := logs s @ [req]\<rparr>))"

section \<open>Connection and disconnection\<close>

text \<open>
  \<open>handleConnection\<close>. Its first statement is the test \<open>this.connectTimers[token]\<close>
  (\<open>guarded\<close>). A \<open>None\<close> from a lookup, or a rejected \<open>logService.create\<close> (which
  this handler does not catch), ends the handler with the effects so far. A \<open>null\<close>
  game makes \<open>sendGameToGameUsers\<close> throw on \<open>game.id\<close> before it emits.
\<close>

definition handleConnection :: "('db, 'v) services \<Rightarrow> socketId \<Rightarrow> token \<Rightarrow> ('db, 'v) state \<Rightarrow> ('db, 'v) state" where
  "handleConnection svc client tok s =
     (if guarded s tok then s
      else
        let (i, s0) = setTimeout (ClearConnectTimer tok) 4000 s;
            s1 = s0\<lparr>connectTimers := (connectTimers s0)(tok \<mapsto> i)\<rparr>
        in case getUserIdByToken svc tok of
             None \<Rightarrow> s1
           | Some userId \<Rightarrow>
        (case findOneByUserId svc (db s1) userId of
             None \<Rightarrow> s1
           | Some user \<Rightarrow>
        (case openedGame user of
             None \<Rightarrow> s1
           | Some og \<Rightarrow>
        let s2 = join client (ref_id og) s1
        in case disconnectTimers s2 (user_id user) of
             Some t \<Rightarrow>
               (clearTimeout t s2)\<lparr>disconnectTimers := (disconnectTimers s2)(user_id user := None)\<rparr>
           | None \<Rightarrow>
        (case createLog svc \<lparr>req_type = ''connect'', req_user = user,
                              req_gameId = ref_id og, req_text = None\<rparr> s2 of
             Inl error \<Rightarrow> s2
           | Inr (l, s3) \<Rightarrow>
        (case findOne svc (db s3) (ref_number og) of
             None \<Rightarrow> s3
           | Some g \<Rightarrow>
               serverEmit ''update-game'' (View (parseGameForAllUsers svc g))
                 (sendGameToGameUsers svc g s3))))))"

text \<open>\<open>handleDisconnect\<close> only schedules the commit and records its handle.\<close>

definition handleDisconnect :: "('db, 'v) services \<Rightarrow> socketId \<Rightarrow> token \<Rightarrow> ('db, 'v) state \<Rightarrow> ('db, 'v) state" where
  "handleDisconnect svc client tok s =
     (case getUserIdByToken svc tok of
        None \<Rightarrow> s
      | Some userId \<Rightarrow>
     (case findOneByUserId svc (db s) userId of
        None \<Rightarrow> s
      | Some user \<Rightarrow>
     (case openedGame user of
        None \<Rightarrow> s
      | Some og \<Rightarrow>
          let (i, s0) = setTimeout (CommitDisconnect client user) 4000 s
          in s0\<lparr>disconnectTimers := (disconnectTimers s0)(user_id user \<mapsto> i)\<rparr>)))"

text \<open>
  The timer callbacks. The commit reads the \<open>user\<close> it closed over; none of its
  calls is caught, so a rejected call ends it with the effects so far.
\<close>

fun callback :: "('db, 'v) services \<Rightarrow> timerAction \<Rightarrow> ('db, 'v) state \<Rightarrow> ('db, 'v) state" where
  "callback svc (ClearConnectTimer tok) s = s\<lparr>connectTimers := (connectTimers s)(tok := None)\<rparr>"
| "callback svc (CommitDisconnect client user) s =
     (case openedGame user of
        None \<Rightarrow> s
      | Some og \<Rightarrow>
     (case createLog svc \<lparr>req_type = ''disconnect'', req_user = user,
                           req_gameId = ref_id og, req_text = None\<rparr> s of
        Inl error \<Rightarrow> s
      | Inr (l, s1) \<Rightarrow>
     let s2 = leave client (ref_id og) s1
     in case findOne svc (db s2) (ref_number og) of
          None \<Rightarrow> s2
        | Some g \<Rightarrow>
            let s3 = serverEmit ''update-game'' (View (parseGameForAllUsers svc g))
                       (sendGameToGameUsers svc g s2)
            in s3\<lparr>disconnectTimers := (disconnectTimers s3)(user_id user := None)\<rparr>))"

text \<open>
  A socket closes: the transport takes it out of its rooms, then calls the
  gateway's \<open>handleDisconnect\<close>.
\<close>

definition onclose :: "('db, 'v) services \<Rightarrow> socketId \<Rightarrow> token \<Rightarrow> ('db, 'v) state \<Rightarrow> ('db, 'v) state" where
  "onclose svc client tok s = handleDisconnect svc client tok (leaveAll client s)"

section \<open>The event loop\<close>

text \<open>
  Among the timers that are due, the event loop runs the one with the earliest
  deadline, and among those with the same deadline the one registered first.
\<close>

fun earliest :: "timer list \<Rightarrow> timer option" where
  "earliest [] = None"
| "earliest (t # ts) =
     (case earliest ts of
        None \<Rightarrow> Some t
      | Some t' \<Rightarrow> if deadline t \<le> deadline t' then Some t else Some t')"

definition nextDue :: "nat \<Rightarrow> timer list \<Rightarrow> timer option" where
  "nextDue limit ts = earliest (filter (\<lambda>t. deadline t \<le> limit) ts)"

text \<open>
  \<open>runTimers svc limit s\<close> lets the clock reach \<open>limit\<close>: it runs every timer that
  becomes due on the way, each at its deadline, and removes it from the loop. A
  callback registers no timer, so the loop ends.
\<close>

function runTimers :: "('db, 'v) services \<Rightarrow> nat \<Rightarrow> ('db, 'v) state \<Rightarrow> ('db, 'v) state" where
  "runTimers svc limit s =
     (case nextDue limit (pending s) of
        None \<Rightarrow> s\<lparr>now := max (now s) limit\<rparr>
      | Some t \<Rightarrow>
          runTimers svc limit
            (callback svc (action t)
               (s\<lparr>now := max (now s) (deadline t), pending := remove1 t (pending s)\<rparr>)))"
  by pat_completeness auto
termination
proof (relation "measure (\<lambda>(svc, limit, s). length (pending s))")
  show "wf (measure (\<lambda>(svc :: ('db, 'v) services, limit :: nat, s :: ('db, 'v) state). length (pending s)))"
    by simp
next
  fix svc :: "('db, 'v) services" and limit :: nat and s :: "('db, 'v) state" and t
  assume due: "nextDue limit (pending s) = Some t"
  have chosen: "earliest ts = Some x \<Longrightarrow> x \<in> set ts" for ts and x :: timer
    by (induction ts arbitrary: x) (auto split: option.splits if_splits)
  have "t \<in> set (filter (\<lambda>t. deadline t \<le> limit) (pending s))"
    using due unfolding nextDue_def by (rule chosen)
  then have "t \<in> set (pending s)"
    by simp
  then have shorter: "length (remove1 t (pending s)) < length (pending s)"
    using length_pos_if_in_set [of t "pending s"] by (simp add: length_remove1)
  have "pending (callback svc a s') = pending s'" for a and s' :: "('db, 'v) state"
    by (cases a)
       (auto simp: createLog_def leave_def serverEmit_def sendGameToGameUsers_def Let_def
             split: option.splits sum.splits prod.splits)
  with shorter show "((svc, limit,
               callback svc (action t)
                 (s\<lparr>now := max (now s) (deadline t), pending := remove1 t (pending s)\<rparr>)),
              (svc, limit, s)) \<in> measure (\<lambda>(svc, limit, s). length (pending s))"
    by simp
qed

declare runTimers.simps [simp del]

definition advance :: "('db, 'v) services \<Rightarrow> nat \<Rightarrow> ('db, 'v) state \<Rightarrow> ('db, 'v) state" where
  "advance svc ms s = runTimers svc (now s + ms) s"

section \<open>The command handlers\<close>

text \<open>
  Each handler runs behind \<open>JwtGuard\<close>, which has attached \<open>client.user\<close>: a handler
  takes the socket id \<open>client\<close> and that \<open>user\<close>. A handler that returns a
  \<open>WsResponse\<close> has it emitted to the client as its last effect. A \<open>null\<close> result of
  \<open>gameService.findOne\<close> makes the following \<open>sendGameToGameUsers\<close> throw on
  \<open>game.id\<close>: the handler ends with the effects so far. A rejected call inside a
  \<open>try\<close> goes to \<open>reportError\<close>; \<open>joinGame\<close> emits an event with the empty name to
  the client before that.
\<close>

definition joinGame :: "('db, 'v) services \<Rightarrow> socketId \<Rightarrow> user \<Rightarrow> int \<Rightarrow> ('db, 'v) state \<Rightarrow> ('db, 'v) state" where
  "joinGame svc client user gameNumber s =
     (case gs_joinGame svc (db s) user gameNumber of
        Inl error \<Rightarrow> reportError client error (clientEmit client [] NoPayload s)
      | Inr (g, db') \<Rightarrow>
     (case createLog svc \<lparr>req_type = ''join'', req_user = user,
                           req_gameId = game_id g, req_text = None\<rparr> (s\<lparr>db := db'\<rparr>) of
        Inl error \<Rightarrow> reportError client error (s\<lparr>db := db'\<rparr>)
      | Inr (l, s1) \<Rightarrow>
     let s2 = join client (game_id g) s1
     in case findOne svc (db s2) (game_number g) of
          None \<Rightarrow> s2
        | Some g' \<Rightarrow>
            serverEmit ''update-game'' (View (parseGameForAllUsers svc g'))
              (sendGameToGameUsers svc g' s2)))"

definition newGame :: "('db, 'v) services \<Rightarrow> socketId \<Rightarrow> user \<Rightarrow> string \<Rightarrow> ('db, 'v) state \<Rightarrow> ('db, 'v) state" where
  "newGame svc client user name s =
     (case gs_newGame svc (db s) name (user_id user) of
        Inl error \<Rightarrow> reportError client error s
      | Inr (g, db') \<Rightarrow>
     (case createLog svc \<lparr>req_type = ''create'', req_user = user,
                           req_gameId = game_id g, req_text = None\<rparr> (s\<lparr>db := db'\<rparr>) of
        Inl error \<Rightarrow> reportError client error (s\<lparr>db := db'\<rparr>)
      | Inr (l, s1) \<Rightarrow>
          joinGame svc client user (game_number g)
            (serverEmit ''new-game'' (View (parseGameForAllUsers svc g)) s1)))"

definition openGame :: "('db, 'v) services \<Rightarrow> socketId \<Rightarrow> user \<Rightarrow> int \<Rightarrow> ('db, 'v) state \<Rightarrow> ('db, 'v) state" where
  "openGame svc client user gameNumber s =
     (case gs_openGame svc (db s) user gameNumber of
        Inl error \<Rightarrow> reportError client error s
      | Inr (g, db') \<Rightarrow>
     (case createLog svc \<lparr>req_type = ''open'', req_user = user,
                           req_gameId = game_id g, req_text = None\<rparr> (s\<lparr>db := db'\<rparr>) of
        Inl error \<Rightarrow> reportError client error (s\<lparr>db := db'\<rparr>)
      | Inr (l, s1) \<Rightarrow>
     let s2 = join client (game_id g) s1
     in case findOne svc (db s2) (game_number g) of
          None \<Rightarrow> s2
        | Some g' \<Rightarrow>
            serverEmit ''update-game'' (View (parseGameForAllUsers svc g'))
              (sendGameToGameUsers svc g' s2)))"

definition watchGame :: "('db, 'v) services \<Rightarrow> socketId \<Rightarrow> user \<Rightarrow> int \<Rightarrow> ('db, 'v) state \<Rightarrow> ('db, 'v) state" where
  "watchGame svc client user gameNumber s =
     (case gs_watchGame svc (db s) user gameNumber of
        Inl error \<Rightarrow> reportError client error s
      | Inr (g, db') \<Rightarrow>
     (case createLog svc \<lparr>req_type = ''watch'', req_user = user,
                           req_gameId = game_id g, req_text = None\<rparr> (s\<lparr>db := db'\<rparr>) of
        Inl error \<Rightarrow> reportError client error (s\<lparr>db := db'\<rparr>)
      | Inr (l, s1) \<Rightarrow>
     let s2 = join client (game_id g) s1
     in case findOne svc (db s2) (game_number g) of
          None \<Rightarrow> s2
        | Some g' \<Rightarrow>
            serverEmit ''update-game'' (View (parseGameForAllUsers svc g'))
              (sendGameToGameUsers svc g' s2)))"

definition leaveGame :: "('db, 'v) services \<Rightarrow> socketId \<Rightarrow> user \<Rightarrow> int \<Rightarrow> ('db, 'v) state \<Rightarrow> ('db, 'v) state" where
  "leaveGame svc client user gameNumber s =
     (case gs_leaveGame svc (db s) user gameNumber of
        Inl error \<Rightarrow> reportError client error s
      | Inr (g, db') \<Rightarrow>
     (case createLog svc \<lparr>req_type = ''leave'', req_user = user,
                           req_gameId = game_id g, req_text = None\<rparr> (s\<lparr>db := db'\<rparr>) of
        Inl error \<Rightarrow> reportError client error (s\<lparr>db := db'\<rparr>)
      | Inr (l, s1) \<Rightarrow>
     let s2 = leave client (game_id g) s1
     in case findOne svc (db s2) (game_number g) of
          None \<Rightarrow> s2
        | Some g' \<Rightarrow>
            clientEmit client ''update-opened-game'' Null
              (serverEmit ''update-game'' (View (parseGameForAllUsers svc g'))
                 (sendGameToGameUsers svc g' s2))))"

definition closeGame :: "('db, 'v) services \<Rightarrow> socketId \<Rightarrow> user \<Rightarrow> ('db, 'v) state \<Rightarrow> ('db, 'v) state" where
  "closeGame svc client user s =
     (case openedGame user of
        None \<Rightarrow> sendError client ''You don't have opened game to close'' s
      | Some og \<Rightarrow>
     (case gs_closeGame svc (db s) user (ref_number og) of
        Inl error \<Rightarrow> reportError client error s
      | Inr (g, db') \<Rightarrow>
     (case createLog svc \<lparr>req_type = ''close'', req_user = user,
                           req_gameId = game_id g, req_text = None\<rparr> (s\<lparr>db := db'\<rparr>) of
        Inl error \<Rightarrow> reportError client error (s\<lparr>db := db'\<rparr>)
      | Inr (l, s1) \<Rightarrow>
     let s2 = leave client (game_id g) s1
     in case findOne svc (db s2) (game_number g) of
          None \<Rightarrow> s2
        | Some g' \<Rightarrow>
            clientEmit client ''update-opened-game'' Null
              (serverEmit ''update-game'' (View (parseGameForAllUsers svc g'))
                 (sendGameToGameUsers svc g' s2)))))"

text \<open>
  \<open>removeGame\<close> looks the game up first. When the lookup is \<open>null\<close> and the removal
  succeeds, \<open>game.id\<close> throws inside the second \<open>try\<close> and \<open>error.response.message\<close>
  throws inside its \<open>catch\<close>: the handler ends there.
\<close>

definition removeGame :: "('db, 'v) services \<Rightarrow> socketId \<Rightarrow> user \<Rightarrow> int \<Rightarrow> ('db, 'v) state \<Rightarrow> ('db, 'v) state" where
  "removeGame svc client user gameNumber s =
     (let found = findOne svc (db s) gameNumber
      in case gs_removeGame svc (db s) user gameNumber of
           Inl error \<Rightarrow> reportError client error s
         | Inr db' \<Rightarrow>
      (case found of
           None \<Rightarrow> s\<lparr>db := db'\<rparr>
         | Some g \<Rightarrow>
      (case closeInvites svc db' (game_id g) of
           Inl error \<Rightarrow> reportError client error (s\<lparr>db := db'\<rparr>)
         | Inr db'' \<Rightarrow>
             serverEmit ''remove-game'' (GameNumber gameNumber)
               (kickUsersFromGame g (s\<lparr>db := db''\<rparr>)))))"

definition toggleReady :: "('db, 'v) services \<Rightarrow> socketId \<Rightarrow> user \<Rightarrow> ('db, 'v) state \<Rightarrow> ('db, 'v) state" where
  "toggleReady svc client user s =
     (case openedGame user of
        None \<Rightarrow> sendError client ''You don't have opened game to toggle ready status'' s
      | Some og \<Rightarrow>
     (case gs_toggleReady svc (db s) user (ref_number og) of
        Inl error \<Rightarrow> reportError client error s
      | Inr (g, db') \<Rightarrow>
     (case createLog svc \<lparr>req_type = ''ready'', req_user = user,
                           req_gameId = game_id g, req_text = None\<rparr> (s\<lparr>db := db'\<rparr>) of
        Inl error \<Rightarrow> reportError client error (s\<lparr>db := db'\<rparr>)
      | Inr (l, s1) \<Rightarrow>
          sendGameToGameUsers svc (g\<lparr>game_logs := l # game_logs g\<rparr>) s1)))"

definition updateOption :: "('db, 'v) services \<Rightarrow> socketId \<Rightarrow> user \<Rightarrow> int \<Rightarrow> string \<Rightarrow> string \<Rightarrow> ('db, 'v) state \<Rightarrow> ('db, 'v) state" where
  "updateOption svc client user gameNumber name val s =
     (case gs_updateOption svc (db s) user gameNumber name val of
        Inl error \<Rightarrow> reportError client error s
      | Inr (g, db') \<Rightarrow>
     (case createLog svc \<lparr>req_type = ''update'', req_user = user,
                           req_gameId = game_id g, req_text = None\<rparr> (s\<lparr>db := db'\<rparr>) of
        Inl error \<Rightarrow> reportError client error (s\<lparr>db := db'\<rparr>)
      | Inr (l, s1) \<Rightarrow>
          sendGameToGameUsers svc (g\<lparr>game_logs := l # game_logs g\<rparr>) s1))"

definition startGame :: "('db, 'v) services \<Rightarrow> socketId \<Rightarrow> user \<Rightarrow> int \<Rightarrow> ('db, 'v) state \<Rightarrow> ('db, 'v) state" where
  "startGame svc client user gameNumber s =
     (case gs_startGame svc (db s) gameNumber of
        Inl error \<Rightarrow> reportError client error s
      | Inr (g, db') \<Rightarrow>
     (case createLog svc \<lparr>req_type = ''start'', req_user = user,
                           req_gameId = game_id g, req_text = None\<rparr> (s\<lparr>db := db'\<rparr>) of
        Inl error \<Rightarrow> reportError client error (s\<lparr>db := db'\<rparr>)
      | Inr (l, s1) \<Rightarrow>
     (case closeInvites svc (db s1) (game_id g) of
        Inl error \<Rightarrow> reportError client error s1
      | Inr db'' \<Rightarrow>
     let s2 = s1\<lparr>db := db''\<rparr>
     in case findOne svc (db s2) (game_number g) of
          None \<Rightarrow> s2
        | Some g' \<Rightarrow>
            serverEmit ''update-game'' (View (parseGameForAllUsers svc g'))
              (sendGameToGameUsers svc g' s2))))"

text \<open>
  \<open>move\<close>: the guard on \<open>client.user.currentGames\<close> comes first. The \<open>finish\<close> entry
  depends on the state of the game \<open>makeMove\<close> returned, the global \<open>update-game\<close>
  on the state of the game read back.
\<close>

definition isPlayer :: "user \<Rightarrow> int \<Rightarrow> bool" where
  "isPlayer user gameNumber =
     (case currentGames user of
        None \<Rightarrow> False
      | Some cgs \<Rightarrow> list_ex (\<lambda>currentGame. ref_number currentGame = gameNumber) cgs)"

definition move :: "('db, 'v) services \<Rightarrow> socketId \<Rightarrow> user \<Rightarrow> int \<Rightarrow> string \<Rightarrow> ('db, 'v) state \<Rightarrow> ('db, 'v) state" where
  "move svc client user gameNumber mv s =
     (if \<not> isPlayer user gameNumber
      then sendError client ''You can't make move if you are not this game player'' s
      else
     (case gs_makeMove svc (db s) mv gameNumber (user_id user) of
        Inl error \<Rightarrow> reportError client error s
      | Inr (g, db') \<Rightarrow>
     (case createLog svc \<lparr>req_type = ''move'', req_user = user,
                           req_gameId = game_id g, req_text = Some mv\<rparr> (s\<lparr>db := db'\<rparr>) of
        Inl error \<Rightarrow> reportError client error (s\<lparr>db := db'\<rparr>)
      | Inr (l, s1) \<Rightarrow>
     (case (if game_state g = GAME_FINISHED svc
            then createLog svc \<lparr>req_type = ''finish'', req_user = user,
                                 req_gameId = game_id g, req_text = None\<rparr> s1
            else Inr (l, s1)) of
        Inl error \<Rightarrow> reportError client error s1
      | Inr (l', s2) \<Rightarrow>
     (case findOne svc (db s2) (game_number g) of
        None \<Rightarrow> s2
      | Some g' \<Rightarrow>
          let s3 = sendGameToGameUsers svc g' s2
          in if game_state g' = GAME_FINISHED svc
             then serverEmit ''update-game'' (View (parseGameForAllUsers svc g')) s3
             else s3)))))"

text \<open>The inbound commands of the game action entry points and their dispatch.\<close>

datatype command =
    NewGame string
  | JoinGame int
  | OpenGame int
  | WatchGame int
  | LeaveGame int
  | CloseGame
  | RemoveGame int
  | ToggleReady
  | UpdateOption int string string
  | StartGame int
  | MakeMove int string

fun handle :: "('db, 'v) services \<Rightarrow> socketId \<Rightarrow> user \<Rightarrow> command \<Rightarrow> ('db, 'v) state \<Rightarrow> ('db, 'v) state" where
  "handle svc client user (NewGame name) s = newGame svc client user name s"
| "handle svc client user (JoinGame n) s = joinGame svc client user n s"
| "handle svc client user (OpenGame n) s = openGame svc client user n s"
| "handle svc client user (WatchGame n) s = watchGame svc client user n s"
| "handle svc client user (LeaveGame n) s = leaveGame svc client user n s"
| "handle svc client user CloseGame s = closeGame svc client user s"
| "handle svc client user (RemoveGame n) s = removeGame svc client user n s"
| "handle svc client user ToggleReady s = toggleReady svc client user s"
| "handle svc client user (UpdateOption n name val) s = updateOption svc client user n name val s"
| "handle svc client user (StartGame n) s = startGame svc client user n s"
| "handle svc client user (MakeMove n mv) s = move svc client user n mv s"

section \<open>A concrete gateway\<close>

text \<open>
  The gateway as constructed: both timer maps are \<open>{}\<close>, no room exists, no socket
  has an identity, nothing has been logged or emitted.
\<close>

definition initialState :: "'db \<Rightarrow> ('db, 'v) state" where
  "initialState d =
     \<lparr>now = 0, nextTimer = 0, pending = [], connectTimers = Map.empty,
      disconnectTimers = Map.empty, rooms = (\<lambda>room. []), socketUser = (\<lambda>sid. None),
      db = d, logs = [], outbox = [], loggerErrors = []\<rparr>"

text \<open>
  Collaborators for the worked examples: a store that counts its writes, one game
  (number 3), and two users, of whom \<open>alice\<close> has that game opened and \<open>bob\<close> has
  none. A move \<open>''mate''\<close> finishes the game.
\<close>

definition game3 :: game where
  "game3 = \<lparr>game_id = ''g3'', game_number = 3, game_name = ''chess'', game_state = 1,
            game_players = [''alice''], game_logs = []\<rparr>"

definition alice :: user where
  "alice = \<lparr>user_id = ''alice'', openedGame = Some \<lparr>ref_id = ''g3'', ref_number = 3\<rparr>,
            currentGames = Some [\<lparr>ref_id = ''g3'', ref_number = 3\<rparr>], currentWatch = None\<rparr>"

definition bob :: user where
  "bob = \<lparr>user_id = ''bob'', openedGame = None, currentGames = None, currentWatch = None\<rparr>"

definition exampleLog :: "nat \<Rightarrow> logReq \<Rightarrow> log" where
  "exampleLog d r =
     \<lparr>log_id = ''log'', log_type = req_type r,
      log_text = (case req_text r of None \<Rightarrow> [] | Some t \<Rightarrow> t),
      log_gameId = req_gameId r, log_userId = user_id (req_user r), log_createdAt = d\<rparr>"

definition exampleCall :: "nat \<Rightarrow> int \<Rightarrow> failure + (game \<times> nat)" where
  "exampleCall d n = (if n = 3 then Inr (game3, Suc d) else Inl (Response ''Game not found''))"

definition exampleServices :: "(nat, string) services" where
  "exampleServices =
     \<lparr>getUserIdByToken = (\<lambda>tok. if tok = ''token-a'' then Some ''alice''
                                else if tok = ''token-a2'' then Some ''alice''
                                else if tok = ''token-b'' then Some ''bob'' else None),
      findOneByUserId = (\<lambda>d uid. if uid = ''alice'' then Some alice
                                  else if uid = ''bob'' then Some bob else None),
      findOne = (\<lambda>d n. if n = 3 then Some game3 else None),
      parseGameForUser = (\<lambda>g u. game_id g @ ''/'' @ user_id u),
      parseGameForAllUsers = (\<lambda>g. game_id g),
      logCreate = (\<lambda>d r. Inr (exampleLog d r, Suc d)),
      gs_newGame = (\<lambda>d name uid. Inr (game3, Suc d)),
      gs_joinGame = (\<lambda>d u n. exampleCall d n),
      gs_openGame = (\<lambda>d u n. exampleCall d n),
      gs_watchGame = (\<lambda>d u n. exampleCall d n),
      gs_leaveGame = (\<lambda>d u n. exampleCall d n),
      gs_closeGame = (\<lambda>d u n. exampleCall d n),
      gs_removeGame = (\<lambda>d u n. if n = 3 then Inr (Suc d) else Inl (Response ''Game not found'')),
      gs_toggleReady = (\<lambda>d u n. exampleCall d n),
      gs_updateOption = (\<lambda>d u n name val. exampleCall d n),
      gs_startGame = (\<lambda>d n. exampleCall d n),
      gs_makeMove = (\<lambda>d mv n uid.
         if n = 3 then Inr (if mv = ''mate'' then game3\<lparr>game_state := 2\<rparr> else game3, Suc d)
         else Inl (Response ''Game not found'')),
      closeInvites = (\<lambda>d gid. Inr (Suc d)),
      GAME_FINISHED = 2\<rparr>"

text \<open>
  A state in which game 3 has two watchers with identities (\<open>w1\<close>, \<open>w2\<close>) and one
  socket without (\<open>anon\<close>) in its room.
\<close>

definition watchedState :: "(nat, string) state" where
  "watchedState =
     (initialState 0)
       \<lparr>rooms := (\<lambda>room. if room = ''g3'' then [''w1'', ''anon'', ''w2''] else []),
        socketUser := (\<lambda>sid. if sid = ''w1'' then Some alice
                              else if sid = ''w2'' then Some bob else None)\<rparr>"

text \<open>
  Variants of the collaborators: a game service that rejects every \<open>joinGame\<close> with
  a framework error, one whose \<open>openGame\<close> throws an error without \<open>response\<close>,
  one that no longer finds any game, and a log service that rejects every entry.
\<close>

definition joinRejecting :: "(nat, string) services" where
  "joinRejecting = exampleServices\<lparr>gs_joinGame := (\<lambda>d u n. Inl (Response ''Game is full''))\<rparr>"

definition openCrashing :: "(nat, string) services" where
  "openCrashing = exampleServices\<lparr>gs_openGame := (\<lambda>d u n. Inl NoResponse)\<rparr>"

definition gameLost :: "(nat, string) services" where
  "gameLost = exampleServices\<lparr>findOne := (\<lambda>d n. None)\<rparr>"

definition logDown :: "(nat, string) services" where
  "logDown = exampleServices\<lparr>logCreate := (\<lambda>d r. Inl (Response ''Log is down''))\<rparr>"

section \<open>Notions used in the statements\<close>

text \<open>The messages addressed to one socket, in the order they were emitted.\<close>

definition deliveries :: "socketId \<Rightarrow> 'v emit list \<Rightarrow> (string \<times> 'v payload) list" where
  "deliveries sid es =
     concat (map (\<lambda>e. case e of ToSocket sid' ev p \<Rightarrow> if sid' = sid then [(ev, p)] else []
                              | ToAll ev p \<Rightarrow> []) es)"

text \<open>
  The timer that \<open>handleConnection\<close> registers for a token in state \<open>s\<close>, and the one
  \<open>handleDisconnect\<close> registers for a client and user.
\<close>

definition guardTimer :: "('db, 'v) state \<Rightarrow> token \<Rightarrow> timer" where
  "guardTimer s tok = \<lparr>tid = nextTimer s, deadline = now s + 4000, action = ClearConnectTimer tok\<rparr>"

definition commitTimer :: "('db, 'v) state \<Rightarrow> socketId \<Rightarrow> user \<Rightarrow> timer" where
  "commitTimer s client u =
     \<lparr>tid = nextTimer s, deadline = now s + 4000, action = CommitDisconnect client u\<rparr>"

text \<open>
  The bookkeeping of handles the gateway maintains: handles are fresh and unique,
  and every pending guard clearing is the one its token's \<open>connectTimers\<close> entry holds.
\<close>

definition timersOk :: "('db, 'v) state \<Rightarrow> bool" where
  "timersOk s \<longleftrightarrow>
     (\<forall>t \<in> set (pending s). tid t < nextTimer s)
   \<and> distinct (map tid (pending s))
   \<and> (\<forall>k i. disconnectTimers s k = Some i \<longrightarrow> i < nextTimer s)
   \<and> (\<forall>t \<in> set (pending s). \<forall>tok. action t = ClearConnectTimer tok \<longrightarrow>
         connectTimers s tok = Some (tid t))"

text \<open>No disconnect commit is among the timers.\<close>

definition onlyGuards :: "timer list \<Rightarrow> bool" where
  "onlyGuards ts \<longleftrightarrow> (\<forall>t \<in> set ts. \<exists>tok. action t = ClearConnectTimer tok)"

text \<open>The timer side of the state, and the side a guard clearing never touches.\<close>

definition timerPart :: "('db, 'v) state \<Rightarrow> nat \<times> nat \<times> timer list \<times> (token \<rightharpoonup> nat) \<times> (userId \<rightharpoonup> nat)" where
  "timerPart s = (now s, nextTimer s, pending s, connectTimers s, disconnectTimers s)"

definition quietPart ::
  "('db, 'v) state \<Rightarrow> (gameId \<Rightarrow> socketId list) \<times> (socketId \<Rightarrow> user option) \<times> 'db \<times> logReq list
     \<times> 'v emit list \<times> string list \<times> (userId \<rightharpoonup> nat) \<times> nat" where
  "quietPart s = (rooms s, socketUser s, db s, logs s, outbox s, loggerErrors s,
                  disconnectTimers s, nextTimer s)"

text \<open>
  The error with which the game service rejects a mutation of a command, if the
  handler gets to call it and it throws. \<open>new-game\<close> calls the game service twice:
  \<open>newGame\<close> and, after the \<open>create\<close> entry and the global \<open>new-game\<close>, \<open>joinGame\<close>
  through the \<open>join-game\<close> handler.
\<close>

definition thrownBy :: "failure + 'a \<Rightarrow> failure option" where
  "thrownBy r = (case r of Inl error \<Rightarrow> Some error | Inr x \<Rightarrow> None)"

fun mutationError :: "('db, 'v) services \<Rightarrow> 'db \<Rightarrow> user \<Rightarrow> command \<Rightarrow> failure option" where
  "mutationError svc d user (NewGame name) =
     (case gs_newGame svc d name (user_id user) of
        Inl error \<Rightarrow> Some error
      | Inr (g, d1) \<Rightarrow>
     (case logCreate svc d1 \<lparr>req_type = ''create'', req_user = user,
                               req_gameId = game_id g, req_text = None\<rparr> of
        Inl error \<Rightarrow> None
      | Inr (l, d2) \<Rightarrow> thrownBy (gs_joinGame svc d2 user (game_number g))))"
| "mutationError svc d user (JoinGame n) = thrownBy (gs_joinGame svc d user n)"
| "mutationError svc d user (OpenGame n) = thrownBy (gs_openGame svc d user n)"
| "mutationError svc d user (WatchGame n) = thrownBy (gs_watchGame svc d user n)"
| "mutationError svc d user (LeaveGame n) = thrownBy (gs_leaveGame svc d user n)"
| "mutationError svc d user CloseGame =
     (case openedGame user of
        None \<Rightarrow> None
      | Some og \<Rightarrow> thrownBy (gs_closeGame svc d user (ref_number og)))"
| "mutationError svc d user (RemoveGame n) = thrownBy (gs_removeGame svc d user n)"
| "mutationError svc d user ToggleReady =
     (case openedGame user of
        None \<Rightarrow> None
      | Some og \<Rightarrow> thrownBy (gs_toggleReady svc d user (ref_number og)))"
| "mutationError svc d user (UpdateOption n name val) = thrownBy (gs_updateOption svc d user n name val)"
| "mutationError svc d user (StartGame n) = thrownBy (gs_startGame svc d n)"
| "mutationError svc d user (MakeMove n mv) =
     (if isPlayer user n then thrownBy (gs_makeMove svc d mv n (user_id user)) else None)"

text \<open>
  What \<open>new-game\<close> has done when it comes to run the \<open>join-game\<close> handler: the game
  it created and the store after the \<open>create\<close> entry. No other command calls the
  game service after a first mutation.
\<close>

fun createdBefore :: "('db, 'v) services \<Rightarrow> 'db \<Rightarrow> user \<Rightarrow> command \<Rightarrow> (game \<times> 'db) option" where
  "createdBefore svc d user (NewGame name) =
     (case gs_newGame svc d name (user_id user) of
        Inl error \<Rightarrow> None
      | Inr (g, d1) \<Rightarrow>
     (case logCreate svc d1 \<lparr>req_type = ''create'', req_user = user,
                               req_gameId = game_id g, req_text = None\<rparr> of
        Inl error \<Rightarrow> None
      | Inr (l, d2) \<Rightarrow> Some (g, d2)))"
| "createdBefore svc d user cmd = None"

text \<open>
  A command is committed when every call that its handler makes to the game
  service and to the log service, up to its last log entry, succeeds (and the
  handler's own guard lets the command through). \<open>entry ty user g tx\<close> is the
  argument of \<open>logService.create\<close> for an entry of type \<open>ty\<close> on game \<open>g\<close>;
  \<open>logged svc user ty r\<close> is: the mutation \<open>r\<close> succeeded and the log service
  accepts the entry of type \<open>ty\<close> on the store the mutation returned.
\<close>

definition entry :: "string \<Rightarrow> user \<Rightarrow> game \<Rightarrow> string option \<Rightarrow> logReq" where
  "entry ty user g tx = \<lparr>req_type = ty, req_user = user, req_gameId = game_id g, req_text = tx\<rparr>"

definition succeeded :: "failure + 'a \<Rightarrow> bool" where
  "succeeded r = (case r of Inl error \<Rightarrow> False | Inr x \<Rightarrow> True)"

definition logged :: "('db, 'v) services \<Rightarrow> user \<Rightarrow> string \<Rightarrow> failure + (game \<times> 'db) \<Rightarrow> bool" where
  "logged svc user ty r =
     (case r of
        Inl error \<Rightarrow> False
      | Inr (g, d1) \<Rightarrow> succeeded (logCreate svc d1 (entry ty user g None)))"

fun committed :: "('db, 'v) services \<Rightarrow> 'db \<Rightarrow> user \<Rightarrow> command \<Rightarrow> bool" where
  "committed svc d user (NewGame name) =
     (case gs_newGame svc d name (user_id user) of
        Inl error \<Rightarrow> False
      | Inr (g, d1) \<Rightarrow>
     (case logCreate svc d1 (entry ''create'' user g None) of
        Inl error \<Rightarrow> False
      | Inr (l, d2) \<Rightarrow> logged svc user ''join'' (gs_joinGame svc d2 user (game_number g))))"
| "committed svc d user (JoinGame n) = logged svc user ''join'' (gs_joinGame svc d user n)"
| "committed svc d user (OpenGame n) = logged svc user ''open'' (gs_openGame svc d user n)"
| "committed svc d user (WatchGame n) = logged svc user ''watch'' (gs_watchGame svc d user n)"
| "committed svc d user (LeaveGame n) = logged svc user ''leave'' (gs_leaveGame svc d user n)"
| "committed svc d user CloseGame =
     (case openedGame user of
        None \<Rightarrow> False
      | Some og \<Rightarrow> logged svc user ''close'' (gs_closeGame svc d user (ref_number og)))"
| "committed svc d user (RemoveGame n) = succeeded (gs_removeGame svc d user n)"
| "committed svc d user ToggleReady =
     (case openedGame user of
        None \<Rightarrow> False
      | Some og \<Rightarrow> logged svc user ''ready'' (gs_toggleReady svc d user (ref_number og)))"
| "committed svc d user (UpdateOption n name val) =
     logged svc user ''update'' (gs_updateOption svc d user n name val)"
| "committed svc d user (StartGame n) = logged svc user ''start'' (gs_startGame svc d n)"
| "committed svc d user (MakeMove n mv) =
     (isPlayer user n \<and>
      (case gs_makeMove svc d mv n (user_id user) of
         Inl error \<Rightarrow> False
       | Inr (g, d1) \<Rightarrow>
      (case logCreate svc d1 (entry ''move'' user g (Some mv)) of
         Inl error \<Rightarrow> False
       | Inr (l, d2) \<Rightarrow>
           game_state g \<noteq> GAME_FINISHED svc
         \<or> succeeded (logCreate svc d2 (entry ''finish'' user g None)))))"

text \<open>
  The events the gateway reacts to, and a run of them. \<open>Disconnect\<close> is a socket
  closing; \<open>Identify\<close> is the guard attaching \<open>client.user\<close> to a socket; \<open>Elapse\<close>
  lets time pass.
\<close>

datatype event =
    Connect socketId token
  | Disconnect socketId token
  | Identify socketId user
  | Command socketId user command
  | Elapse nat

fun fire :: "('db, 'v) services \<Rightarrow> event \<Rightarrow> ('db, 'v) state \<Rightarrow> ('db, 'v) state" where
  "fire svc (Connect client tok) s = handleConnection svc client tok s"
| "fire svc (Disconnect client tok) s = onclose svc client tok s"
| "fire svc (Identify client user) s = s\<lparr>socketUser := (socketUser s)(client \<mapsto> user)\<rparr>"
| "fire svc (Command client user cmd) s = handle svc client user cmd s"
| "fire svc (Elapse ms) s = advance svc ms s"

definition run :: "('db, 'v) services \<Rightarrow> event list \<Rightarrow> ('db, 'v) state \<Rightarrow> ('db, 'v) state" where
  "run svc es s = foldl (\<lambda>s e. fire svc e s) s es"

text \<open>
  Worked scenario: \<open>alice\<close> connects as socket \<open>c1\<close> with token \<open>token-a\<close> at time 0;
  one second later the transport closes; one more second passes.
\<close>

definition connectedState :: "(nat, string) state" where
  "connectedState = advance exampleServices 1000
     (handleConnection exampleServices ''c1'' ''token-a'' (initialState 0))"

definition droppedState :: "(nat, string) state" where
  "droppedState = advance exampleServices 1000
     (onclose exampleServices ''c1'' ''token-a'' connectedState)"



text \<open>Each room lists a socket once (the sockets of a room are the keys of an object).\<close>

definition roomsOk :: "('db, 'v) state \<Rightarrow> bool" where
  "roomsOk s \<longleftrightarrow> (\<forall>room. distinct (rooms s room))"

section \<open>Auxiliary facts\<close>

subsection \<open>The event loop\<close>

lemma earliest_mem: "earliest ts = Some t \<Longrightarrow> t \<in> set ts"
  by (induction ts arbitrary: t) (auto split: option.splits if_splits)

lemma earliest_None: "earliest ts = None \<longleftrightarrow> ts = []"
  by (induction ts) (auto split: option.splits)

lemma nextDue_mem: "nextDue limit ts = Some t \<Longrightarrow> t \<in> set ts \<and> deadline t \<le> limit"
  using earliest_mem [of "filter (\<lambda>t. deadline t \<le> limit) ts" t] by (simp add: nextDue_def)

lemma pending_sendGameToGameUsers [simp]: "pending (sendGameToGameUsers svc g s) = pending s"
  by (simp add: sendGameToGameUsers_def)

lemma pending_callback [simp]: "pending (callback svc a s) = pending s"
  by (cases a)
     (auto simp: createLog_def leave_def serverEmit_def Let_def
           split: option.splits sum.splits prod.splits)

lemma nextDue_None: "nextDue limit ts = None \<longleftrightarrow> (\<forall>t \<in> set ts. \<not> deadline t \<le> limit)"
  by (simp add: nextDue_def earliest_None filter_empty_conv)

lemma filter_remove1_other: "\<not> P t \<Longrightarrow> filter P (remove1 t xs) = filter P xs"
  by (induction xs) auto

lemma runTimers_None: "nextDue limit (pending s) = None \<Longrightarrow> runTimers svc limit s = s\<lparr>now := max (now s) limit\<rparr>"
  by (subst runTimers.simps) simp

lemma runTimers_Some:
  "nextDue limit (pending s) = Some t \<Longrightarrow>
   runTimers svc limit s =
     runTimers svc limit
       (callback svc (action t) (s\<lparr>now := max (now s) (deadline t), pending := remove1 t (pending s)\<rparr>))"
  by (subst runTimers.simps) simp

lemma runTimers_invariant:
  assumes "P s"
      and "\<And>s t. P s \<Longrightarrow> t \<in> set (pending s) \<Longrightarrow> deadline t \<le> limit \<Longrightarrow>
                   P (callback svc (action t)
                        (s\<lparr>now := max (now s) (deadline t), pending := remove1 t (pending s)\<rparr>))"
      and "\<And>s. P s \<Longrightarrow> \<forall>t \<in> set (pending s). \<not> deadline t \<le> limit \<Longrightarrow> P (s\<lparr>now := max (now s) limit\<rparr>)"
  shows "P (runTimers svc limit s)"
  using assms
proof (induction svc limit s rule: runTimers.induct)
  case (1 svc limit s)
  show ?case
  proof (cases "nextDue limit (pending s)")
    case None
    then have "\<forall>t \<in> set (pending s). \<not> deadline t \<le> limit"
      by (simp add: nextDue_None)
    then have "P (s\<lparr>now := max (now s) limit\<rparr>)"
      using "1.prems"(1,3) by blast
    then show ?thesis
      by (simp add: runTimers_None [OF None])
  next
    case (Some t)
    then have "t \<in> set (pending s)" "deadline t \<le> limit"
      using nextDue_mem by blast+
    then have "P (callback svc (action t)
                  (s\<lparr>now := max (now s) (deadline t), pending := remove1 t (pending s)\<rparr>))"
      using "1.prems"(1,2) by blast
    then have "P (runTimers svc limit (callback svc (action t)
                  (s\<lparr>now := max (now s) (deadline t), pending := remove1 t (pending s)\<rparr>)))"
      using "1.IH" [OF Some] "1.prems"(2,3) by blast
    then show ?thesis
      by (simp add: runTimers_Some [OF Some])
  qed
qed

lemma pending_runTimers:
  "pending (runTimers svc limit s) = filter (\<lambda>t. \<not> deadline t \<le> limit) (pending s)"
proof (induction svc limit s rule: runTimers.induct)
  case (1 svc limit s)
  show ?case
  proof (cases "nextDue limit (pending s)")
    case None
    then show ?thesis
      by (simp add: runTimers_None nextDue_None)
  next
    case (Some t)
    then have "deadline t \<le> limit"
      using nextDue_mem by blast
    then show ?thesis
      using "1.IH" [OF Some] by (simp add: runTimers_Some [OF Some] filter_remove1_other)
  qed
qed

subsection \<open>What the helpers leave alone\<close>

lemma timerPart_simps [simp]:
  "timerPart (sendError c m s) = timerPart s"
  "timerPart (reportError c e s) = timerPart s"
  "timerPart (leaveAll c s) = timerPart s"
  "timerPart (clientEmit c ev p s) = timerPart s"
  "timerPart (serverEmit ev p s) = timerPart s"
  "timerPart (sendGameToGameUsers svc g s) = timerPart s"
  "timerPart (kickUsersFromGame g s) = timerPart s"
  "timerPart (join c r s) = timerPart s"
  "timerPart (leave c r s) = timerPart s"
  "timerPart (s\<lparr>db := d\<rparr>) = timerPart s"
  by (simp_all add: timerPart_def sendError_def reportError_def clientEmit_def serverEmit_def
        sendGameToGameUsers_def kickUsersFromGame_def join_def leave_def leaveAll_def
        split: failure.split)

lemma createLog_Inr:
  "createLog svc req s = Inr (l, s') \<Longrightarrow>
     \<exists>d. logCreate svc (db s) req = Inr (l, d) \<and> s' = s\<lparr>db := d, logs := logs s @ [req]\<rparr>"
  by (auto simp: createLog_def split: sum.splits)

lemma timerPart_createLog: "createLog svc req s = Inr (l, s') \<Longrightarrow> timerPart s' = timerPart s"
  by (auto dest!: createLog_Inr simp: timerPart_def)

lemma timerPart_joinGame [simp]: "timerPart (joinGame svc c u n s) = timerPart s"
  by (auto simp: joinGame_def Let_def dest!: timerPart_createLog split: sum.splits option.splits)

lemma timerPart_newGame [simp]: "timerPart (newGame svc c u n s) = timerPart s"
  by (auto simp: newGame_def Let_def dest!: timerPart_createLog split: sum.splits option.splits)

lemma timerPart_openGame [simp]: "timerPart (openGame svc c u n s) = timerPart s"
  by (auto simp: openGame_def Let_def dest!: timerPart_createLog split: sum.splits option.splits)

lemma timerPart_watchGame [simp]: "timerPart (watchGame svc c u n s) = timerPart s"
  by (auto simp: watchGame_def Let_def dest!: timerPart_createLog split: sum.splits option.splits)

lemma timerPart_leaveGame [simp]: "timerPart (leaveGame svc c u n s) = timerPart s"
  by (auto simp: leaveGame_def Let_def dest!: timerPart_createLog split: sum.splits option.splits)

lemma timerPart_closeGame [simp]: "timerPart (closeGame svc c u s) = timerPart s"
  by (auto simp: closeGame_def Let_def dest!: timerPart_createLog split: sum.splits option.splits)

lemma timerPart_removeGame [simp]: "timerPart (removeGame svc c u n s) = timerPart s"
  by (auto simp: removeGame_def Let_def split: sum.splits option.splits)

lemma timerPart_toggleReady [simp]: "timerPart (toggleReady svc c u s) = timerPart s"
  by (auto simp: toggleReady_def Let_def dest!: timerPart_createLog split: sum.splits option.splits)

lemma timerPart_updateOption [simp]: "timerPart (updateOption svc c u n x y s) = timerPart s"
  by (auto simp: updateOption_def Let_def dest!: timerPart_createLog split: sum.splits option.splits)

lemma timerPart_startGame [simp]: "timerPart (startGame svc c u n s) = timerPart s"
  by (auto simp: startGame_def Let_def dest!: timerPart_createLog split: sum.splits option.splits)

lemma timerPart_move [simp]: "timerPart (move svc c u n mv s) = timerPart s"
  by (auto simp: move_def Let_def dest!: timerPart_createLog split: sum.splits option.splits if_splits)

lemma timerPart_handle: "timerPart (handle svc c u cmd s) = timerPart s"
  by (cases cmd) simp_all

lemma timersOk_timerPart: "timerPart s' = timerPart s \<Longrightarrow> timersOk s' = timersOk s"
  by (simp add: timerPart_def timersOk_def)

subsection \<open>Timer bookkeeping is well formed\<close>

lemma timersOk_initialState: "timersOk (initialState d)"
  by (simp add: timersOk_def initialState_def)

lemma timersOk_handle: "timersOk (handle svc c u cmd s) = timersOk s"
  by (rule timersOk_timerPart) (rule timerPart_handle)

lemma timersOk_handleDisconnect: "timersOk s \<Longrightarrow> timersOk (handleDisconnect svc c tok s)"
  by (auto simp: handleDisconnect_def setTimeout_def timersOk_def less_Suc_eq
           split: option.splits)

lemma timersOk_onclose: "timersOk s \<Longrightarrow> timersOk (onclose svc c tok s)"
  unfolding onclose_def
  by (rule timersOk_handleDisconnect) (simp add: timersOk_timerPart [of "leaveAll c s" s])

lemma timerPart_handleConnection:
  assumes "\<not> guarded s tok"
  shows "timerPart (handleConnection svc c tok s) =
           (now s, Suc (nextTimer s), pending s @ [guardTimer s tok],
            (connectTimers s)(tok \<mapsto> nextTimer s), disconnectTimers s)
       \<or> (\<exists>k i. disconnectTimers s k = Some i \<and>
            timerPart (handleConnection svc c tok s) =
              (now s, Suc (nextTimer s), filter (\<lambda>t. tid t \<noteq> i) (pending s @ [guardTimer s tok]),
               (connectTimers s)(tok \<mapsto> nextTimer s), (disconnectTimers s)(k := None)))"
  using assms
  unfolding handleConnection_def setTimeout_def guardTimer_def
  by (auto simp: timerPart_def createLog_def join_def clearTimeout_def serverEmit_def
                 sendGameToGameUsers_def Let_def
           split: option.splits sum.splits prod.splits)

lemma timersOk_handleConnection:
  assumes "timersOk s"
  shows "timersOk (handleConnection svc c tok s)"
proof (cases "guarded s tok")
  case True
  with assms show ?thesis by (simp add: handleConnection_def)
next
  case False
  then have None: "connectTimers s tok = None"
    by (simp add: guarded_def)
  let ?g = "guardTimer s tok"
  let ?ct = "(connectTimers s)(tok \<mapsto> nextTimer s)"
  have fresh: "\<forall>t \<in> set (pending s). tid t < nextTimer s"
    using assms by (simp add: timersOk_def)
  have noguard: "\<forall>t \<in> set (pending s). action t \<noteq> ClearConnectTimer tok"
    using assms None by (auto simp: timersOk_def)
  have base: "timersOk (s\<lparr>nextTimer := Suc (nextTimer s), pending := pending s @ [?g],
                           connectTimers := ?ct\<rparr>)"
    using assms fresh noguard
    by (auto simp: timersOk_def guardTimer_def less_Suc_eq)
  have ok: "timersOk s'"
    if "timerPart s' = (now s, Suc (nextTimer s), pending s @ [?g], ?ct, disconnectTimers s)" for s' :: "('db, 'v) state"
    using base that by (simp add: timersOk_def timerPart_def)
  have ok2: "timersOk s'"
    if "timerPart s' = (now s, Suc (nextTimer s), filter (\<lambda>t. tid t \<noteq> i) (pending s @ [?g]),
                        ?ct, (disconnectTimers s)(k := None))" for s' :: "('db, 'v) state" and i k
    using base that by (auto simp: timersOk_def timerPart_def distinct_map_filter)
  show ?thesis
    using timerPart_handleConnection [OF False, of svc c] ok ok2 by blast
qed

lemma disconnectTimers_callback:
  "disconnectTimers (callback svc a s) k = Some i \<Longrightarrow> disconnectTimers s k = Some i"
  by (cases a)
     (auto simp: createLog_def leave_def serverEmit_def sendGameToGameUsers_def Let_def
           split: option.splits sum.splits prod.splits if_splits)

lemma nextTimer_callback [simp]: "nextTimer (callback svc a s) = nextTimer s"
  by (cases a)
     (auto simp: createLog_def leave_def serverEmit_def sendGameToGameUsers_def Let_def
           split: option.splits sum.splits prod.splits)

lemma connectTimers_callback:
  "connectTimers (callback svc a s) =
     (case a of ClearConnectTimer tok \<Rightarrow> (connectTimers s)(tok := None)
              | CommitDisconnect c u \<Rightarrow> connectTimers s)"
  by (cases a)
     (auto simp: createLog_def leave_def serverEmit_def sendGameToGameUsers_def Let_def
           split: option.splits sum.splits prod.splits)

lemma distinct_map_remove1: "distinct (map f xs) \<Longrightarrow> distinct (map f (remove1 x xs))"
  by (induction xs) (auto dest: notin_set_remove1 [THEN notE, rotated] simp: image_iff)

lemma tid_remove1_distinct:
  "distinct (map tid xs) \<Longrightarrow> t \<in> set xs \<Longrightarrow> t2 \<in> set (remove1 t xs) \<Longrightarrow> tid t2 \<noteq> tid t"
  by (induction xs) (auto simp: image_iff split: if_splits)

lemma timersOk_fire:
  assumes "timersOk s" and "t \<in> set (pending s)"
  shows "timersOk (callback svc (action t)
                     (s\<lparr>now := n, pending := remove1 t (pending s)\<rparr>))"
proof -
  let ?s = "s\<lparr>now := n, pending := remove1 t (pending s)\<rparr>"
  have 1: "\<forall>t' \<in> set (remove1 t (pending s)). tid t' < nextTimer s"
    using assms by (auto simp: timersOk_def dest: notin_set_remove1)
  have 2: "distinct (map tid (remove1 t (pending s)))"
    using assms by (simp add: timersOk_def distinct_map_remove1)
  have 3: "\<forall>k i. disconnectTimers (callback svc (action t) ?s) k = Some i \<longrightarrow> i < nextTimer s"
    using assms(1) disconnectTimers_callback [of svc "action t" ?s]
    by (fastforce simp: timersOk_def)
  have 4: "connectTimers (callback svc (action t) ?s) tok = Some (tid t')"
    if "t' \<in> set (remove1 t (pending s))" "action t' = ClearConnectTimer tok" for t' tok
  proof -
    have in': "t' \<in> set (pending s)"
      using that(1) by (meson notin_set_remove1)
    then have old: "connectTimers s tok = Some (tid t')"
      using assms(1) that(2) by (simp add: timersOk_def)
    have ne: "tid t' \<noteq> tid t"
      using tid_remove1_distinct [OF _ assms(2) that(1)] assms(1) by (simp add: timersOk_def)
    show ?thesis
    proof (cases "action t")
      case (ClearConnectTimer tok')
      then have "connectTimers s tok' = Some (tid t)"
        using assms by (simp add: timersOk_def)
      with old ne have "tok' \<noteq> tok" by auto
      with old ClearConnectTimer show ?thesis
        by (simp add: connectTimers_callback del: callback.simps)
    next
      case (CommitDisconnect c u)
      with old show ?thesis
        by (simp add: connectTimers_callback del: callback.simps)
    qed
  qed
  show ?thesis
    unfolding timersOk_def using 1 2 3 4 by simp
qed

lemma timersOk_runTimers: "timersOk s \<Longrightarrow> timersOk (runTimers svc limit s)"
proof (rule runTimers_invariant [where P = timersOk])
  fix s :: "('db, 'v) state" assume "timersOk s"
  then show "timersOk (s\<lparr>now := max (now s) limit\<rparr>)"
    by (simp add: timersOk_def)
qed (simp_all add: timersOk_fire)

lemma timersOk_advance: "timersOk s \<Longrightarrow> timersOk (advance svc ms s)"
  by (simp add: advance_def timersOk_runTimers)

subsection \<open>What a run of the timers changes\<close>

lemma guard_kept:
  fixes s :: "('db, 'v) state"
  assumes "\<forall>t \<in> set (pending s). action t = ClearConnectTimer tok \<longrightarrow> \<not> deadline t \<le> limit"
  shows "connectTimers (runTimers svc limit s) tok = connectTimers s tok"
proof -
  let ?P = "\<lambda>s'. connectTimers s' tok = connectTimers s tok
              \<and> (\<forall>t \<in> set (pending s'). action t = ClearConnectTimer tok \<longrightarrow> \<not> deadline t \<le> limit)"
  have "?P (runTimers svc limit s)"
  proof (rule runTimers_invariant [where P = ?P])
    show "?P s" using assms by simp
  next
    fix s' :: "('db, 'v) state" and t
    assume P: "?P s'" and t: "t \<in> set (pending s')" "deadline t \<le> limit"
    then have "action t \<noteq> ClearConnectTimer tok" by blast
    then have "connectTimers (callback svc (action t)
         (s'\<lparr>now := max (now s') (deadline t), pending := remove1 t (pending s')\<rparr>)) tok
         = connectTimers s' tok"
      by (cases "action t") (auto simp: connectTimers_callback simp del: callback.simps)
    moreover have "\<forall>t' \<in> set (remove1 t (pending s')).
         action t' = ClearConnectTimer tok \<longrightarrow> \<not> deadline t' \<le> limit"
      using P by (meson notin_set_remove1)
    ultimately show "?P (callback svc (action t)
         (s'\<lparr>now := max (now s') (deadline t), pending := remove1 t (pending s')\<rparr>))"
      using P by simp
  qed simp
  then show ?thesis by simp
qed

lemma guard_cleared:
  fixes s :: "('db, 'v) state"
  assumes "t0 \<in> set (pending s)" and "action t0 = ClearConnectTimer tok" and "deadline t0 \<le> limit"
  shows "connectTimers (runTimers svc limit s) tok = None"
proof -
  let ?P = "\<lambda>s'. connectTimers s' tok = None
              \<or> (\<exists>t \<in> set (pending s'). action t = ClearConnectTimer tok \<and> deadline t \<le> limit)"
  have "?P (runTimers svc limit s)"
  proof (rule runTimers_invariant [where P = ?P])
    show "?P s" using assms by blast
  next
    fix s' :: "('db, 'v) state" and t
    assume P: "?P s'" and t: "t \<in> set (pending s')" "deadline t \<le> limit"
    let ?s = "callback svc (action t)
         (s'\<lparr>now := max (now s') (deadline t), pending := remove1 t (pending s')\<rparr>)"
    show "?P ?s"
    proof (cases "connectTimers s' tok = None \<or> action t = ClearConnectTimer tok")
      case True
      then have "connectTimers ?s tok = None"
        by (cases "action t") (auto simp: connectTimers_callback simp del: callback.simps)
      then show ?thesis by simp
    next
      case False
      with P obtain t1 where t1: "t1 \<in> set (pending s')" "action t1 = ClearConnectTimer tok"
          "deadline t1 \<le> limit"
        by blast
      with False have "t1 \<noteq> t" by auto
      with t1 have "t1 \<in> set (remove1 t (pending s'))" by simp
      with t1 show ?thesis by auto
    qed
  next
    fix s' :: "('db, 'v) state"
    assume "?P s'" and "\<forall>t \<in> set (pending s'). \<not> deadline t \<le> limit"
    then show "?P (s'\<lparr>now := max (now s') limit\<rparr>)" by auto
  qed
  moreover have "\<forall>t \<in> set (pending (runTimers svc limit s)). \<not> deadline t \<le> limit"
    by (simp add: pending_runTimers)
  ultimately show ?thesis by blast
qed

lemma quietPart_guard [simp]:
  "quietPart (callback svc (ClearConnectTimer tok) s) = quietPart s"
  by (simp add: quietPart_def)





lemma now_callback [simp]: "now (callback svc a s) = now s"
  by (cases a)
     (auto simp: createLog_def leave_def serverEmit_def sendGameToGameUsers_def Let_def
           split: option.splits sum.splits prod.splits)

lemma now_runTimers:
  fixes s :: "('db, 'v) state"
  shows "now s \<le> limit \<Longrightarrow> now (runTimers svc limit s) = limit"
proof (induction svc limit s rule: runTimers.induct)
  case (1 svc limit s)
  show ?case
  proof (cases "nextDue limit (pending s)")
    case None
    then show ?thesis using "1.prems" by (simp add: runTimers_None)
  next
    case (Some t)
    then have "deadline t \<le> limit" using nextDue_mem by blast
    then show ?thesis
      using "1.IH" [OF Some] "1.prems" by (simp add: runTimers_Some [OF Some] del: callback.simps)
  qed
qed

subsection \<open>Messages of a room broadcast\<close>

lemma deliveries_gameMessages:
  "deliveries sid (gameMessages svc su g sids) =
     concat (map (\<lambda>x. if x = sid then (case su x of None \<Rightarrow> []
        | Some u \<Rightarrow> [(''update-opened-game'', View (parseGameForUser svc g u))]) else []) sids)"
  by (induction sids) (auto simp: deliveries_def gameMessages_def split: option.splits)

lemma concat_map_none:
  "x \<notin> set xs \<Longrightarrow> concat (map (\<lambda>y. if y = x then f y else []) xs) = []"
  by (induction xs) auto

lemma concat_map_single:
  "distinct xs \<Longrightarrow> x \<in> set xs \<Longrightarrow> concat (map (\<lambda>y. if y = x then f y else []) xs) = f x"
  by (induction xs) (auto simp: concat_map_none)

lemma set_gameMessages:
  "e \<in> set (gameMessages svc su g sids) \<Longrightarrow>
     \<exists>sid u. sid \<in> set sids \<and> su sid = Some u
        \<and> e = ToSocket sid ''update-opened-game'' (View (parseGameForUser svc g u))"
proof -
  assume "e \<in> set (gameMessages svc su g sids)"
  then obtain sid where sid: "sid \<in> set sids"
      and e: "e \<in> set (case su sid of None \<Rightarrow> []
                | Some u \<Rightarrow> [ToSocket sid ''update-opened-game'' (View (parseGameForUser svc g u))])"
    by (auto simp: gameMessages_def)
  from e obtain u where "su sid = Some u"
      and "e = ToSocket sid ''update-opened-game'' (View (parseGameForUser svc g u))"
    by (cases "su sid") auto
  with sid show ?thesis by blast
qed

subsection \<open>Outcomes of the command handlers\<close>

lemma thrownBy_Some: "thrownBy r = Some e \<longleftrightarrow> r = Inl e"
  by (cases r) (simp_all add: thrownBy_def)

lemma deliveries_append [simp]: "deliveries sid (xs @ ys) = deliveries sid xs @ deliveries sid ys"
  by (simp add: deliveries_def)

lemma deliveries_simps [simp]:
  "deliveries sid [] = []"
  "deliveries sid (ToSocket sid' ev p # es) = (if sid' = sid then [(ev, p)] else []) @ deliveries sid es"
  "deliveries sid (ToAll ev p # es) = deliveries sid es"
  by (simp_all add: deliveries_def)

lemmas emit_defs =
  sendError_def reportError_def clientEmit_def serverEmit_def sendGameToGameUsers_def
  kickUsersFromGame_def join_def leave_def createLog_def

text \<open>
  A handler whose mutation and log entry succeed appends that entry, whatever the
  lookup that follows yields.
\<close>

lemma loggedD:
  "logged svc u ty r \<Longrightarrow>
     \<exists>g d1 l d2. r = Inr (g, d1) \<and> logCreate svc d1 (entry ty u g None) = Inr (l, d2)"
proof (cases r)
  case (Inl e)
  assume "logged svc u ty r"
  with Inl show ?thesis by (simp add: logged_def)
next
  case (Inr gd)
  assume l: "logged svc u ty r"
  obtain g d1 where gd: "gd = (g, d1)" by (cases gd) auto
  show ?thesis
  proof (cases "logCreate svc d1 (entry ty u g None)")
    case (Inl e)
    with l Inr gd show ?thesis by (simp add: logged_def succeeded_def)
  next
    case (Inr ld)
    then obtain l' d2 where "logCreate svc d1 (entry ty u g None) = Inr (l', d2)"
      by (cases ld) auto
    with \<open>r = Inr gd\<close> gd show ?thesis by blast
  qed
qed

lemma logs_joinGame:
  assumes "gs_joinGame svc (db s) u n = Inr (g, d1)"
      and "logCreate svc d1 (entry ''join'' u g None) = Inr (l, d2)"
  shows "logs (joinGame svc c u n s) = logs s @ [entry ''join'' u g None]"
  using assms unfolding joinGame_def entry_def
  by (simp add: emit_defs Let_def split: option.split)

lemma logs_openGame:
  assumes "gs_openGame svc (db s) u n = Inr (g, d1)"
      and "logCreate svc d1 (entry ''open'' u g None) = Inr (l, d2)"
  shows "logs (openGame svc c u n s) = logs s @ [entry ''open'' u g None]"
  using assms unfolding openGame_def entry_def
  by (simp add: emit_defs Let_def split: option.split)

lemma logs_watchGame:
  assumes "gs_watchGame svc (db s) u n = Inr (g, d1)"
      and "logCreate svc d1 (entry ''watch'' u g None) = Inr (l, d2)"
  shows "logs (watchGame svc c u n s) = logs s @ [entry ''watch'' u g None]"
  using assms unfolding watchGame_def entry_def
  by (simp add: emit_defs Let_def split: option.split)

lemma logs_leaveGame:
  assumes "gs_leaveGame svc (db s) u n = Inr (g, d1)"
      and "logCreate svc d1 (entry ''leave'' u g None) = Inr (l, d2)"
  shows "logs (leaveGame svc c u n s) = logs s @ [entry ''leave'' u g None]"
  using assms unfolding leaveGame_def entry_def
  by (simp add: emit_defs Let_def split: option.split)

lemma logs_closeGame:
  assumes "openedGame u = Some og"
      and "gs_closeGame svc (db s) u (ref_number og) = Inr (g, d1)"
      and "logCreate svc d1 (entry ''close'' u g None) = Inr (l, d2)"
  shows "logs (closeGame svc c u s) = logs s @ [entry ''close'' u g None]"
  using assms unfolding closeGame_def entry_def
  by (simp add: emit_defs Let_def split: option.split)

lemma logs_removeGame:
  "logs (removeGame svc c u n s) = logs s"
  unfolding removeGame_def
  by (auto simp: emit_defs Let_def split: sum.split option.split prod.split failure.split)

lemma logs_toggleReady:
  assumes "openedGame u = Some og"
      and "gs_toggleReady svc (db s) u (ref_number og) = Inr (g, d1)"
      and "logCreate svc d1 (entry ''ready'' u g None) = Inr (l, d2)"
  shows "logs (toggleReady svc c u s) = logs s @ [entry ''ready'' u g None]"
  using assms unfolding toggleReady_def entry_def
  by (simp add: emit_defs Let_def)

lemma logs_updateOption:
  assumes "gs_updateOption svc (db s) u n x y = Inr (g, d1)"
      and "logCreate svc d1 (entry ''update'' u g None) = Inr (l, d2)"
  shows "logs (updateOption svc c u n x y s) = logs s @ [entry ''update'' u g None]"
  using assms unfolding updateOption_def entry_def
  by (simp add: emit_defs Let_def)

lemma logs_startGame:
  assumes "gs_startGame svc (db s) n = Inr (g, d1)"
      and "logCreate svc d1 (entry ''start'' u g None) = Inr (l, d2)"
  shows "logs (startGame svc c u n s) = logs s @ [entry ''start'' u g None]"
  using assms unfolding startGame_def entry_def
  by (simp add: emit_defs Let_def split: option.split sum.split failure.split)

lemma logs_move:
  assumes "isPlayer u n"
      and "gs_makeMove svc (db s) mv n (user_id u) = Inr (g, d1)"
      and "logCreate svc d1 (entry ''move'' u g (Some mv)) = Inr (l, d2)"
      and "game_state g \<noteq> GAME_FINISHED svc"
  shows "logs (move svc c u n mv s) = logs s @ [entry ''move'' u g (Some mv)]"
  using assms unfolding move_def entry_def
  by (simp add: emit_defs Let_def split: option.split)

lemma logs_move_finish:
  assumes "isPlayer u n"
      and "gs_makeMove svc (db s) mv n (user_id u) = Inr (g, d1)"
      and "logCreate svc d1 (entry ''move'' u g (Some mv)) = Inr (l, d2)"
      and "game_state g = GAME_FINISHED svc"
      and "logCreate svc d2 (entry ''finish'' u g None) = Inr (l', d3)"
  shows "logs (move svc c u n mv s)
           = logs s @ [entry ''move'' u g (Some mv), entry ''finish'' u g None]"
  using assms unfolding move_def entry_def
  by (simp add: emit_defs Let_def split: option.split)

lemma logs_newGame:
  assumes "gs_newGame svc (db s) name (user_id u) = Inr (g, d1)"
      and "logCreate svc d1 (entry ''create'' u g None) = Inr (l, d2)"
      and "gs_joinGame svc d2 u (game_number g) = Inr (g', d3)"
      and "logCreate svc d3 (entry ''join'' u g' None) = Inr (l', d4)"
  shows "logs (newGame svc c u name s)
           = logs s @ [entry ''create'' u g None, entry ''join'' u g' None]"
proof -
  let ?s1 = "serverEmit ''new-game'' (View (parseGameForAllUsers svc g))
               (s\<lparr>db := d2, logs := logs s @ [entry ''create'' u g None]\<rparr>)"
  have "newGame svc c u name s = joinGame svc c u (game_number g) ?s1"
    using assms(1,2) by (simp add: newGame_def createLog_def entry_def)
  moreover have "gs_joinGame svc (db ?s1) u (game_number g) = Inr (g', d3)"
    using assms(3) by (simp add: serverEmit_def)
  ultimately show ?thesis
    using logs_joinGame [of svc ?s1 u "game_number g" g' d3 l' d4 c] assms(4)
    by (simp add: serverEmit_def)
qed

text \<open>
  When \<open>gameService.newGame\<close> and the \<open>create\<close> entry succeed and the \<open>join-game\<close>
  handler that \<open>newGame\<close> then runs is rejected by the game service, the entry and
  the global \<open>new-game\<close> stay, and the rejection is reported to the caller as by
  \<open>join-game\<close>.
\<close>

lemma newGame_failed_join:
  assumes "gs_newGame svc (db s) name (user_id u) = Inr (g, d1)"
      and "logCreate svc d1 \<lparr>req_type = ''create'', req_user = u,
                               req_gameId = game_id g, req_text = None\<rparr> = Inr (l, d2)"
      and "gs_joinGame svc d2 u (game_number g) = Inl (Response m)"
  shows "newGame svc c u name s =
           s\<lparr>db := d2,
             logs := logs s @ [\<lparr>req_type = ''create'', req_user = u,
                                 req_gameId = game_id g, req_text = None\<rparr>],
             outbox := outbox s
               @ [ToAll ''new-game'' (View (parseGameForAllUsers svc g)),
                  ToSocket c [] NoPayload,
                  ToSocket c ''error-message'' (ErrorMessage m)],
             loggerErrors := loggerErrors s @ [m]\<rparr>"
  using assms by (simp add: newGame_def joinGame_def emit_defs)

text \<open>
  A mutation rejected with an error without \<open>response\<close>: the handler ends in its
  \<open>catch\<close> block. Nothing is logged and no \<open>error-message\<close> is sent; \<open>join-game\<close> has
  emitted its event with the empty name.
\<close>

lemma rejected_without_response:
  assumes "mutationError svc (db s) user cmd = Some NoResponse"
      and "createdBefore svc (db s) user cmd = None"
  shows "handle svc client user cmd s =
           s\<lparr>outbox := outbox s
               @ (case cmd of JoinGame n \<Rightarrow> [ToSocket client [] NoPayload] | _ \<Rightarrow> [])\<rparr>"
proof (cases cmd)
  case (NewGame name)
  with assms show ?thesis
    by (auto simp: thrownBy_Some newGame_def emit_defs split: sum.splits)
next
  case (JoinGame n)
  with assms show ?thesis
    by (simp add: thrownBy_Some joinGame_def emit_defs)
next
  case (OpenGame n)
  with assms show ?thesis
    by (simp add: thrownBy_Some openGame_def emit_defs)
next
  case (WatchGame n)
  with assms show ?thesis
    by (simp add: thrownBy_Some watchGame_def emit_defs)
next
  case (LeaveGame n)
  with assms show ?thesis
    by (simp add: thrownBy_Some leaveGame_def emit_defs)
next
  case CloseGame
  with assms show ?thesis
    by (auto simp: thrownBy_Some closeGame_def emit_defs split: option.splits)
next
  case (RemoveGame n)
  with assms show ?thesis
    by (simp add: thrownBy_Some removeGame_def emit_defs)
next
  case ToggleReady
  with assms show ?thesis
    by (auto simp: thrownBy_Some toggleReady_def emit_defs split: option.splits)
next
  case (UpdateOption n name val)
  with assms show ?thesis
    by (simp add: thrownBy_Some updateOption_def emit_defs)
next
  case (StartGame n)
  with assms show ?thesis
    by (simp add: thrownBy_Some startGame_def emit_defs)
next
  case (MakeMove n mv)
  with assms show ?thesis
    by (auto simp: thrownBy_Some move_def emit_defs split: if_splits)
qed

lemma deliveries_kickMessages:
  "deliveries sid (kickMessages su sids) =
     concat (map (\<lambda>x. if x = sid then (case su x of None \<Rightarrow> []
        | Some u \<Rightarrow> [(''update-opened-game'', Null)]) else []) sids)"
  by (induction sids) (auto simp: deliveries_def kickMessages_def split: option.splits)

lemma set_kickMessages:
  "e \<in> set (kickMessages su sids) \<Longrightarrow>
     \<exists>sid u. sid \<in> set sids \<and> su sid = Some u \<and> e = ToSocket sid ''update-opened-game'' Null"
proof -
  assume "e \<in> set (kickMessages su sids)"
  then obtain sid where sid: "sid \<in> set sids"
      and e: "e \<in> set (case su sid of None \<Rightarrow> []
                | Some u \<Rightarrow> [ToSocket sid ''update-opened-game'' Null])"
    by (auto simp: kickMessages_def)
  from e obtain u where "su sid = Some u" and "e = ToSocket sid ''update-opened-game'' Null"
    by (cases "su sid") auto
  with sid show ?thesis by blast
qed

subsection \<open>Reachable states; the guard and the commit\<close>

lemma timersOk_fire_event: "timersOk s \<Longrightarrow> timersOk (fire svc e s)"
proof (cases e)
  case (Identify client user)
  assume "timersOk s"
  with Identify show ?thesis by (simp add: timersOk_def)
qed (simp_all add: timersOk_handleConnection timersOk_onclose timersOk_handle
       timersOk_advance)

lemma timersOk_run: "timersOk s \<Longrightarrow> timersOk (run svc es s)"
  unfolding run_def by (induction es arbitrary: s) (simp_all add: timersOk_fire_event)

lemma timersOk_reachable: "timersOk (run svc es (initialState d))"
  by (simp add: timersOk_run timersOk_initialState)

lemma after_first_connect:
  fixes s :: "('db, 'v) state"
  assumes "timersOk s" and "\<not> guarded s tok"
  shows "now (handleConnection svc c tok s) = now s"
    and "connectTimers (handleConnection svc c tok s) tok = Some (nextTimer s)"
    and "guardTimer s tok \<in> set (pending (handleConnection svc c tok s))"
    and "\<forall>t \<in> set (pending (handleConnection svc c tok s)).
           action t = ClearConnectTimer tok \<longrightarrow> t = guardTimer s tok"
proof -
  let ?s1 = "handleConnection svc c tok s"
  let ?g = "guardTimer s tok"
  have old: "\<forall>t \<in> set (pending s). action t \<noteq> ClearConnectTimer tok"
    using assms by (auto simp: timersOk_def guarded_def)
  have ids: "\<forall>k i. disconnectTimers s k = Some i \<longrightarrow> i \<noteq> tid ?g"
    using assms(1) by (auto simp: timersOk_def guardTimer_def)
  consider
    (plain) "timerPart ?s1 = (now s, Suc (nextTimer s), pending s @ [?g],
               (connectTimers s)(tok \<mapsto> nextTimer s), disconnectTimers s)"
  | (cancel) k i where "disconnectTimers s k = Some i"
      "timerPart ?s1 = (now s, Suc (nextTimer s), filter (\<lambda>t. tid t \<noteq> i) (pending s @ [?g]),
               (connectTimers s)(tok \<mapsto> nextTimer s), (disconnectTimers s)(k := None))"
    using timerPart_handleConnection [OF assms(2), of svc c] by blast
  then have "now ?s1 = now s \<and> connectTimers ?s1 tok = Some (nextTimer s)
      \<and> ?g \<in> set (pending ?s1)
      \<and> (\<forall>t \<in> set (pending ?s1). action t = ClearConnectTimer tok \<longrightarrow> t = ?g)"
  proof cases
    case plain
    then show ?thesis using old by (auto simp: timerPart_def)
  next
    case cancel
    then show ?thesis using old ids by (auto simp: timerPart_def)
  qed
  then show "now ?s1 = now s" "connectTimers ?s1 tok = Some (nextTimer s)"
    "?g \<in> set (pending ?s1)"
    "\<forall>t \<in> set (pending ?s1). action t = ClearConnectTimer tok \<longrightarrow> t = ?g"
    by blast+
qed

lemma connect_installs_guard:
  "\<not> guarded s tok \<Longrightarrow>
     connectTimers (handleConnection svc c tok s) tok = Some (nextTimer s)"
  using timerPart_handleConnection [of s tok svc c] by (auto simp: timerPart_def)

lemma handleDisconnect_eq:
  assumes "getUserIdByToken svc tok = Some uid"
      and "findOneByUserId svc (db s) uid = Some u"
      and "openedGame u = Some og"
  shows "handleDisconnect svc c tok s =
           s\<lparr>nextTimer := Suc (nextTimer s), pending := pending s @ [commitTimer s c u],
             disconnectTimers := (disconnectTimers s)(user_id u \<mapsto> nextTimer s)\<rparr>"
  using assms by (simp add: handleDisconnect_def setTimeout_def commitTimer_def)




lemma onlyGuards_filter: "onlyGuards ts \<Longrightarrow> onlyGuards (filter P ts)"
  by (auto simp: onlyGuards_def)





lemma committed_newGameD:
  assumes "committed svc d u (NewGame name)"
  obtains g d1 l d2
    where "gs_newGame svc d name (user_id u) = Inr (g, d1)"
      and "logCreate svc d1 (entry ''create'' u g None) = Inr (l, d2)"
      and "logged svc u ''join'' (gs_joinGame svc d2 u (game_number g))"
proof -
  from assms obtain gd where 1: "gs_newGame svc d name (user_id u) = Inr gd"
    by (cases "gs_newGame svc d name (user_id u)") auto
  obtain g d1 where gd: "gd = (g, d1)" by (cases gd) auto
  from assms 1 gd obtain ld where 2: "logCreate svc d1 (entry ''create'' u g None) = Inr ld"
    by (cases "logCreate svc d1 (entry ''create'' u g None)") auto
  obtain l d2 where ld: "ld = (l, d2)" by (cases ld) auto
  from assms 1 gd 2 ld have "logged svc u ''join'' (gs_joinGame svc d2 u (game_number g))"
    by simp
  with 1 gd 2 ld that show thesis by blast
qed

lemma committed_moveD:
  assumes "committed svc d u (MakeMove n mv)"
  obtains g d1 l d2
    where "isPlayer u n"
      and "gs_makeMove svc d mv n (user_id u) = Inr (g, d1)"
      and "logCreate svc d1 (entry ''move'' u g (Some mv)) = Inr (l, d2)"
      and "game_state g \<noteq> GAME_FINISHED svc
           \<or> succeeded (logCreate svc d2 (entry ''finish'' u g None))"
proof -
  from assms have p: "isPlayer u n" by simp
  from assms obtain gd where 1: "gs_makeMove svc d mv n (user_id u) = Inr gd"
    by (cases "gs_makeMove svc d mv n (user_id u)") auto
  obtain g d1 where gd: "gd = (g, d1)" by (cases gd) auto
  from assms 1 gd obtain ld where 2: "logCreate svc d1 (entry ''move'' u g (Some mv)) = Inr ld"
    by (cases "logCreate svc d1 (entry ''move'' u g (Some mv))") auto
  obtain l d2 where ld: "ld = (l, d2)" by (cases ld) auto
  from assms 1 gd 2 ld have "game_state g \<noteq> GAME_FINISHED svc
           \<or> succeeded (logCreate svc d2 (entry ''finish'' u g None))"
    by simp
  with p 1 gd 2 ld that show thesis by blast
qed

subsection \<open>The guard window of a token that passes the test\<close>

text \<open>
  In a state of the gateway in which the test \<open>this.connectTimers[token]\<close> fails for
  the token, a connect installs the guard: the token's entry in \<open>connectTimers\<close> and
  a timer due 4000 ms later. Up to 4000 ms later (exclusive) the entry is still
  there and a further connect with the same token, from any socket, leaves the
  state as it is. From 4000 ms on the entry is gone, and a connect with the same
  token is processed again: it installs a new guard.
\<close>

lemma guard_window:
  fixes s :: "('db, 'v) state"
  assumes "timersOk s" and "\<not> guarded s tok"
  shows "connectTimers (handleConnection svc c tok s) tok = Some (nextTimer s)
     \<and> guardTimer s tok \<in> set (pending (handleConnection svc c tok s))
     \<and> (\<forall>ms c'. ms < 4000 \<longrightarrow>
           connectTimers (advance svc ms (handleConnection svc c tok s)) tok = Some (nextTimer s)
         \<and> handleConnection svc c' tok (advance svc ms (handleConnection svc c tok s))
             = advance svc ms (handleConnection svc c tok s))
     \<and> (\<forall>ms c'. 4000 \<le> ms \<longrightarrow>
           connectTimers (advance svc ms (handleConnection svc c tok s)) tok = None
         \<and> connectTimers (handleConnection svc c' tok
               (advance svc ms (handleConnection svc c tok s))) tok
             = Some (nextTimer (advance svc ms (handleConnection svc c tok s))))"
proof -
  let ?s1 = "handleConnection svc c tok s"
  let ?g = "guardTimer s tok"
  note f = after_first_connect [OF assms, of svc c]
  have ordinary: "\<not> inherited tok"
    using assms(2) by (simp add: guarded_def)
  have early: "connectTimers (advance svc ms ?s1) tok = Some (nextTimer s)
         \<and> handleConnection svc c' tok (advance svc ms ?s1) = advance svc ms ?s1"
    if "ms < 4000" for ms c'
  proof -
    have "\<forall>t \<in> set (pending ?s1). action t = ClearConnectTimer tok \<longrightarrow>
            \<not> deadline t \<le> now ?s1 + ms"
      using f(1,4) that by (auto simp: guardTimer_def)
    then have "connectTimers (advance svc ms ?s1) tok = Some (nextTimer s)"
      using f(2) by (simp add: advance_def guard_kept)
    then show ?thesis by (simp add: handleConnection_def guarded_def)
  qed
  have late: "connectTimers (advance svc ms ?s1) tok = None
         \<and> connectTimers (handleConnection svc c' tok (advance svc ms ?s1)) tok
             = Some (nextTimer (advance svc ms ?s1))"
    if "4000 \<le> ms" for ms c'
  proof -
    have "deadline ?g \<le> now ?s1 + ms"
      using f(1) that by (simp add: guardTimer_def)
    then have "connectTimers (advance svc ms ?s1) tok = None"
      using guard_cleared [OF f(3), of tok "now ?s1 + ms" svc]
      by (simp add: advance_def guardTimer_def)
    then show ?thesis
      using ordinary by (simp add: connect_installs_guard guarded_def)
  qed
  show ?thesis
    using f(2,3) early late by blast
qed

subsection \<open>A timer registered last and due at the limit runs last\<close>







subsection \<open>Rooms and identities under the timers\<close>

lemma socketUser_callback [simp]: "socketUser (callback svc a s) = socketUser s"
  by (cases a)
     (auto simp: createLog_def leave_def serverEmit_def sendGameToGameUsers_def Let_def
           split: option.splits sum.splits prod.splits)


lemma rooms_callback:
  "rooms (callback svc a s) room = rooms s room
   \<or> (\<exists>c. rooms (callback svc a s) room = filter (\<lambda>x. x \<noteq> c) (rooms s room))"
  by (cases a)
     (auto simp: createLog_def leave_def serverEmit_def sendGameToGameUsers_def Let_def
           split: option.splits sum.splits prod.splits)

lemma roomsOk_callback: "roomsOk s \<Longrightarrow> roomsOk (callback svc a s)"
  unfolding roomsOk_def using rooms_callback [of svc a s] by (metis distinct_filter)

lemma roomsOk_runTimers:
  fixes s :: "('db, 'v) state"
  shows "roomsOk s \<Longrightarrow> roomsOk (runTimers svc limit s)"
proof (rule runTimers_invariant [where P = roomsOk])
  fix s' :: "('db, 'v) state" and t
  assume "roomsOk s'"
  then have "roomsOk (s'\<lparr>now := max (now s') (deadline t), pending := remove1 t (pending s')\<rparr>)"
    by (simp add: roomsOk_def)
  then show "roomsOk (callback svc (action t)
                (s'\<lparr>now := max (now s') (deadline t), pending := remove1 t (pending s')\<rparr>))"
    by (rule roomsOk_callback)
qed (simp_all add: roomsOk_def)




subsection \<open>Each room lists a socket once\<close>

lemma roomsOk_rooms: "rooms s' = rooms s \<Longrightarrow> roomsOk s' = roomsOk s"
  by (simp add: roomsOk_def)

lemma roomsOk_simps [simp]:
  "roomsOk (sendError c m s) = roomsOk s"
  "roomsOk (reportError c e s) = roomsOk s"
  "roomsOk (clientEmit c ev p s) = roomsOk s"
  "roomsOk (serverEmit ev p s) = roomsOk s"
  "roomsOk (sendGameToGameUsers svc g s) = roomsOk s"
  "roomsOk (kickUsersFromGame g s) = roomsOk s"
  "roomsOk (s\<lparr>db := d\<rparr>) = roomsOk s"
  by (simp_all add: roomsOk_def sendError_def reportError_def clientEmit_def serverEmit_def
        sendGameToGameUsers_def kickUsersFromGame_def split: failure.split)

lemma roomsOk_join [simp]: "roomsOk s \<Longrightarrow> roomsOk (join c r s)"
  by (simp add: roomsOk_def join_def)

lemma roomsOk_leave [simp]: "roomsOk s \<Longrightarrow> roomsOk (leave c r s)"
  by (simp add: roomsOk_def leave_def)

lemma roomsOk_leaveAll [simp]: "roomsOk s \<Longrightarrow> roomsOk (leaveAll c s)"
  by (simp add: roomsOk_def leaveAll_def)

lemma roomsOk_createLog: "createLog svc req s = Inr (l, s') \<Longrightarrow> roomsOk s' = roomsOk s"
  by (auto dest!: createLog_Inr simp: roomsOk_def)

lemma roomsOk_joinGame: "roomsOk s \<Longrightarrow> roomsOk (joinGame svc c u n s)"
  by (auto simp: joinGame_def Let_def dest!: roomsOk_createLog split: sum.splits option.splits)

lemma roomsOk_newGame: "roomsOk s \<Longrightarrow> roomsOk (newGame svc c u n s)"
  by (auto simp: newGame_def Let_def roomsOk_joinGame dest!: roomsOk_createLog split: sum.splits option.splits)

lemma roomsOk_openGame: "roomsOk s \<Longrightarrow> roomsOk (openGame svc c u n s)"
  by (auto simp: openGame_def Let_def dest!: roomsOk_createLog split: sum.splits option.splits)

lemma roomsOk_watchGame: "roomsOk s \<Longrightarrow> roomsOk (watchGame svc c u n s)"
  by (auto simp: watchGame_def Let_def dest!: roomsOk_createLog split: sum.splits option.splits)

lemma roomsOk_leaveGame: "roomsOk s \<Longrightarrow> roomsOk (leaveGame svc c u n s)"
  by (auto simp: leaveGame_def Let_def dest!: roomsOk_createLog split: sum.splits option.splits)

lemma roomsOk_closeGame: "roomsOk s \<Longrightarrow> roomsOk (closeGame svc c u s)"
  by (auto simp: closeGame_def Let_def dest!: roomsOk_createLog split: sum.splits option.splits)

lemma roomsOk_removeGame: "roomsOk s \<Longrightarrow> roomsOk (removeGame svc c u n s)"
  by (auto simp: removeGame_def Let_def split: sum.splits option.splits)

lemma roomsOk_toggleReady: "roomsOk s \<Longrightarrow> roomsOk (toggleReady svc c u s)"
  by (auto simp: toggleReady_def Let_def dest!: roomsOk_createLog split: sum.splits option.splits)

lemma roomsOk_updateOption: "roomsOk s \<Longrightarrow> roomsOk (updateOption svc c u n x y s)"
  by (auto simp: updateOption_def Let_def dest!: roomsOk_createLog split: sum.splits option.splits)

lemma roomsOk_startGame: "roomsOk s \<Longrightarrow> roomsOk (startGame svc c u n s)"
  by (auto simp: startGame_def Let_def dest!: roomsOk_createLog split: sum.splits option.splits)

lemma roomsOk_move: "roomsOk s \<Longrightarrow> roomsOk (move svc c u n mv s)"
  by (auto simp: move_def Let_def dest!: roomsOk_createLog split: sum.splits option.splits if_splits)

lemma roomsOk_handle: "roomsOk s \<Longrightarrow> roomsOk (handle svc c u cmd s)"
  by (cases cmd)
     (simp_all add: roomsOk_joinGame roomsOk_newGame roomsOk_openGame roomsOk_watchGame
        roomsOk_leaveGame roomsOk_closeGame roomsOk_removeGame roomsOk_toggleReady
        roomsOk_updateOption roomsOk_startGame roomsOk_move)

lemma roomsOk_handleDisconnect: "roomsOk s \<Longrightarrow> roomsOk (handleDisconnect svc c tok s)"
  by (auto simp: handleDisconnect_def setTimeout_def roomsOk_def split: option.splits)

lemma roomsOk_onclose: "roomsOk s \<Longrightarrow> roomsOk (onclose svc c tok s)"
  by (simp add: onclose_def roomsOk_handleDisconnect)

lemma roomsOk_handleConnection: "roomsOk s \<Longrightarrow> roomsOk (handleConnection svc c tok s)"
  unfolding handleConnection_def setTimeout_def
  by (auto simp: roomsOk_def createLog_def join_def clearTimeout_def serverEmit_def
                 sendGameToGameUsers_def Let_def
           split: option.splits sum.splits prod.splits)

lemma roomsOk_fire: "roomsOk s \<Longrightarrow> roomsOk (fire svc e s)"
proof (cases e)
  case (Identify client user)
  assume "roomsOk s"
  with Identify show ?thesis by (simp add: roomsOk_def)
qed (simp_all add: roomsOk_handleConnection roomsOk_onclose roomsOk_handle
       advance_def roomsOk_runTimers)

lemma roomsOk_run: "roomsOk s \<Longrightarrow> roomsOk (run svc es s)"
  unfolding run_def by (induction es arbitrary: s) (simp_all add: roomsOk_fire)

lemma roomsOk_reachable: "roomsOk (run svc es (initialState d))"
  by (rule roomsOk_run) (simp add: roomsOk_def initialState_def)

subsection \<open>The worked scenarios, evaluated\<close>

lemmas example_defs =
  exampleServices_def exampleCall_def exampleLog_def alice_def bob_def game3_def
  initialState_def watchedState_def joinRejecting_def openCrashing_def gameLost_def
  logDown_def

lemmas gateway_defs =
  handleConnection_def handleDisconnect_def onclose_def leaveAll_def guarded_def inherited_def
  objectPrototypeKeys_def setTimeout_def clearTimeout_def join_def
  leave_def createLog_def sendGameToGameUsers_def gameMessages_def serverEmit_def
  clientEmit_def sendError_def reportError_def advance_def nextDue_def kickUsersFromGame_def
  kickMessages_def

lemmas handler_defs =
  newGame_def joinGame_def openGame_def watchGame_def leaveGame_def closeGame_def
  removeGame_def toggleReady_def updateOption_def startGame_def move_def isPlayer_def

lemma connectedState_eq:
  "connectedState =
     \<lparr>now = 1000, nextTimer = 1,
      pending = [\<lparr>tid = 0, deadline = 4000, action = ClearConnectTimer ''token-a''\<rparr>],
      connectTimers = [''token-a'' \<mapsto> 0], disconnectTimers = Map.empty,
      rooms = (\<lambda>room. [])(''g3'' := [''c1'']), socketUser = (\<lambda>sid. None), db = 1,
      logs = [\<lparr>req_type = ''connect'', req_user = alice, req_gameId = ''g3'', req_text = None\<rparr>],
      outbox = [ToAll ''update-game'' (View ''g3'')], loggerErrors = []\<rparr>"
  by (simp add: connectedState_def gateway_defs example_defs runTimers.simps)

lemma droppedState_eq:
  "droppedState =
     \<lparr>now = 2000, nextTimer = 2,
      pending = [\<lparr>tid = 0, deadline = 4000, action = ClearConnectTimer ''token-a''\<rparr>,
                 \<lparr>tid = 1, deadline = 5000, action = CommitDisconnect ''c1'' alice\<rparr>],
      connectTimers = [''token-a'' \<mapsto> 0], disconnectTimers = [''alice'' \<mapsto> 1],
      rooms = (\<lambda>room. []), socketUser = (\<lambda>sid. None), db = 1,
      logs = [\<lparr>req_type = ''connect'', req_user = alice, req_gameId = ''g3'', req_text = None\<rparr>],
      outbox = [ToAll ''update-game'' (View ''g3'')], loggerErrors = []\<rparr>"
proof -
  have "(\<lambda>room. filter (\<lambda>x. x \<noteq> ''c1'') (((\<lambda>room. [])(''g3'' := [''c1''])) room)) = (\<lambda>room. [])"
    by (rule ext) simp
  then show ?thesis
    by (simp add: droppedState_def connectedState_eq gateway_defs example_defs runTimers.simps)
qed


section \<open>The claims\<close>

subsection \<open>Connect debounce\<close>

text \<open>
  Claim C5. A connect whose handshake token has an active entry in \<open>connectTimers\<close>
  returns before the token is verified: the state after the handler is the state
  before it. In particular no room is joined, no log entry is created, nothing is
  emitted, \<open>disconnectTimers\<close> and the timers of the event loop are unchanged, and
  whatever the timers would have done after any delay they still do: a pending
  disconnect commit of the same user is not cancelled.
\<close>

theorem debounced_connect_is_ignored:
  assumes "connectTimers s tok \<noteq> None"
  shows "handleConnection svc client tok s = s
       \<and> rooms (handleConnection svc client tok s) = rooms s
       \<and> logs (handleConnection svc client tok s) = logs s
       \<and> outbox (handleConnection svc client tok s) = outbox s
       \<and> disconnectTimers (handleConnection svc client tok s) = disconnectTimers s
       \<and> pending (handleConnection svc client tok s) = pending s
       \<and> advance svc ms (handleConnection svc client tok s) = advance svc ms s"
  using assms by (simp add: handleConnection_def guarded_def)

text \<open>
  In the worked scenario \<open>alice\<close> reconnects as \<open>c2\<close> with the same token two seconds
  after her first connect: the connect is ignored and her disconnect commit stays
  scheduled.
\<close>

theorem debounced_connect_is_ignored_witness:
  "connectTimers droppedState ''token-a'' \<noteq> None
   \<and> handleConnection exampleServices ''c2'' ''token-a'' droppedState = droppedState
   \<and> disconnectTimers (handleConnection exampleServices ''c2'' ''token-a'' droppedState) ''alice''
       = Some 1
   \<and> \<lparr>tid = 1, deadline = 5000, action = CommitDisconnect ''c1'' alice\<rparr>
       \<in> set (pending (handleConnection exampleServices ''c2'' ''token-a'' droppedState))"
proof -
  have h: "connectTimers droppedState ''token-a'' \<noteq> None"
    by (simp add: droppedState_eq)
  show ?thesis
    using h debounced_connect_is_ignored [OF h, of exampleServices "''c2''" 0]
    by (simp add: droppedState_eq)
qed

subsection \<open>Connect without an opened game\<close>

text \<open>
  Claim C10. When the token of a connect resolves to a user whose \<open>openedGame\<close> is
  absent, the handler joins no room, creates no log entry and emits nothing; the
  store and the disconnect timers are unchanged as well.
\<close>

theorem connect_without_opened_game:
  assumes "getUserIdByToken svc tok = Some uid"
      and "findOneByUserId svc (db s) uid = Some u"
      and "openedGame u = None"
  shows "rooms (handleConnection svc client tok s) = rooms s
       \<and> logs (handleConnection svc client tok s) = logs s
       \<and> outbox (handleConnection svc client tok s) = outbox s
       \<and> db (handleConnection svc client tok s) = db s
       \<and> disconnectTimers (handleConnection svc client tok s) = disconnectTimers s"
  using assms by (simp add: handleConnection_def setTimeout_def)

theorem connect_without_opened_game_witness:
  "getUserIdByToken exampleServices ''token-b'' = Some ''bob''
   \<and> findOneByUserId exampleServices (db droppedState) ''bob'' = Some bob
   \<and> openedGame bob = None
   \<and> rooms (handleConnection exampleServices ''c3'' ''token-b'' droppedState) = rooms droppedState
   \<and> logs (handleConnection exampleServices ''c3'' ''token-b'' droppedState) = logs droppedState
   \<and> outbox (handleConnection exampleServices ''c3'' ''token-b'' droppedState) = outbox droppedState
   \<and> db (handleConnection exampleServices ''c3'' ''token-b'' droppedState) = db droppedState
   \<and> disconnectTimers (handleConnection exampleServices ''c3'' ''token-b'' droppedState)
        = disconnectTimers droppedState"
proof -
  have 1: "getUserIdByToken exampleServices ''token-b'' = Some ''bob''"
    by (simp add: exampleServices_def)
  have 2: "findOneByUserId exampleServices (db droppedState) ''bob'' = Some bob"
    by (simp add: exampleServices_def)
  have 3: "openedGame bob = None"
    by (simp add: bob_def)
  show ?thesis
    using 1 2 3 connect_without_opened_game [OF 1 2 3, of "''c3''"] by simp
qed

subsection \<open>Moves by non-players\<close>

text \<open>
  Claim C8. When the requested game number is not among the numbers of the caller's
  \<open>currentGames\<close> (or the caller has no such list), \<open>move\<close> does nothing but report
  the not-a-player error to the caller: one \<open>error-message\<close> to the calling socket
  and one line in the error logger. The store, the log entries and the rooms are
  unchanged and nothing else is emitted.
\<close>

theorem move_by_non_player_is_rejected:
  assumes "\<forall>cgs. currentGames user = Some cgs \<longrightarrow> gameNumber \<notin> ref_number ` set cgs"
  shows "move svc client user gameNumber mv s =
           s\<lparr>loggerErrors := loggerErrors s
                @ [''You can't make move if you are not this game player''],
             outbox := outbox s
                @ [ToSocket client ''error-message''
                     (ErrorMessage ''You can't make move if you are not this game player'')]\<rparr>"
  using assms
  by (auto simp: move_def isPlayer_def sendError_def clientEmit_def list_ex_iff
           split: option.splits)

theorem move_by_non_player_is_rejected_witness:
  "currentGames alice = Some [\<lparr>ref_id = ''g3'', ref_number = 3\<rparr>]
   \<and> move exampleServices ''w1'' alice 7 ''e2e4'' watchedState =
       watchedState\<lparr>loggerErrors := loggerErrors watchedState
                       @ [''You can't make move if you are not this game player''],
                    outbox := outbox watchedState
                       @ [ToSocket ''w1'' ''error-message''
                            (ErrorMessage ''You can't make move if you are not this game player'')]\<rparr>"
proof -
  have h: "\<forall>cgs. currentGames alice = Some cgs \<longrightarrow> 7 \<notin> ref_number ` set cgs"
    by (simp add: alice_def)
  have c: "currentGames alice = Some [\<lparr>ref_id = ''g3'', ref_number = 3\<rparr>]"
    by (simp add: alice_def)
  show ?thesis
    using c move_by_non_player_is_rejected [OF h, of exampleServices "''w1''" "''e2e4''" watchedState]
    by simp
qed

subsection \<open>Room broadcasts\<close>

text \<open>
  Claim C9. \<open>sendGameToGameUsers\<close> changes nothing but the outbox, to which it
  appends messages such that: every message is an \<open>update-opened-game\<close> addressed to
  one socket of the game's room, carrying the projection of the game for the user
  attached to that very socket; each socket of the room that has a user receives
  exactly one message, its own projection; a socket without a user, and a socket
  outside the room, receives nothing. (The room index lists each socket once.)
\<close>

theorem room_broadcast_is_per_viewer:
  assumes "distinct (rooms s (game_id g))"
  shows "\<exists>new. sendGameToGameUsers svc g s = s\<lparr>outbox := outbox s @ new\<rparr>
     \<and> (\<forall>e \<in> set new. \<exists>sid u. sid \<in> set (rooms s (game_id g)) \<and> socketUser s sid = Some u
            \<and> e = ToSocket sid ''update-opened-game'' (View (parseGameForUser svc g u)))
     \<and> (\<forall>sid u. sid \<in> set (rooms s (game_id g)) \<longrightarrow> socketUser s sid = Some u \<longrightarrow>
            deliveries sid new = [(''update-opened-game'', View (parseGameForUser svc g u))])
     \<and> (\<forall>sid. socketUser s sid = None \<longrightarrow> deliveries sid new = [])
     \<and> (\<forall>sid. sid \<notin> set (rooms s (game_id g)) \<longrightarrow> deliveries sid new = [])"
proof -
  let ?room = "rooms s (game_id g)"
  let ?new = "gameMessages svc (socketUser s) g ?room"
  have "sendGameToGameUsers svc g s = s\<lparr>outbox := outbox s @ ?new\<rparr>"
    by (simp add: sendGameToGameUsers_def gameMessages_def)
  moreover have "\<forall>e \<in> set ?new. \<exists>sid u. sid \<in> set ?room \<and> socketUser s sid = Some u
            \<and> e = ToSocket sid ''update-opened-game'' (View (parseGameForUser svc g u))"
    using set_gameMessages by fast
  moreover have "\<forall>sid u. sid \<in> set ?room \<longrightarrow> socketUser s sid = Some u \<longrightarrow>
            deliveries sid ?new = [(''update-opened-game'', View (parseGameForUser svc g u))]"
    using assms by (simp add: deliveries_gameMessages concat_map_single)
  moreover have "\<forall>sid. socketUser s sid = None \<longrightarrow> deliveries sid ?new = []"
    by (auto simp: deliveries_gameMessages)
  moreover have "\<forall>sid. sid \<notin> set ?room \<longrightarrow> deliveries sid ?new = []"
    by (simp add: deliveries_gameMessages concat_map_none)
  ultimately show ?thesis by blast
qed

theorem room_broadcast_is_per_viewer_witness:
  "distinct (rooms watchedState (game_id game3))
   \<and> outbox (sendGameToGameUsers exampleServices game3 watchedState) =
       [ToSocket ''w1'' ''update-opened-game'' (View ''g3/alice''),
        ToSocket ''w2'' ''update-opened-game'' (View ''g3/bob'')]
   \<and> (\<exists>new. sendGameToGameUsers exampleServices game3 watchedState
               = watchedState\<lparr>outbox := outbox watchedState @ new\<rparr>
        \<and> deliveries ''w1'' new = [(''update-opened-game'', View ''g3/alice'')]
        \<and> deliveries ''w2'' new = [(''update-opened-game'', View ''g3/bob'')]
        \<and> deliveries ''anon'' new = []
        \<and> deliveries ''c1'' new = [])"
proof -
  have h: "distinct (rooms watchedState (game_id game3))"
    by (simp add: watchedState_def game3_def initialState_def)
  have o: "outbox (sendGameToGameUsers exampleServices game3 watchedState) =
       [ToSocket ''w1'' ''update-opened-game'' (View ''g3/alice''),
        ToSocket ''w2'' ''update-opened-game'' (View ''g3/bob'')]"
    by (simp add: gateway_defs example_defs)
  have r: "rooms watchedState (game_id game3) = [''w1'', ''anon'', ''w2'']"
    by (simp add: watchedState_def game3_def initialState_def)
  have u: "socketUser watchedState ''w1'' = Some alice" "socketUser watchedState ''w2'' = Some bob"
    "socketUser watchedState ''anon'' = None"
    by (simp_all add: watchedState_def initialState_def)
  have p: "parseGameForUser exampleServices game3 alice = ''g3/alice''"
    "parseGameForUser exampleServices game3 bob = ''g3/bob''"
    by (simp_all add: example_defs)
  from room_broadcast_is_per_viewer [OF h, of exampleServices]
  obtain new where new: "sendGameToGameUsers exampleServices game3 watchedState
               = watchedState\<lparr>outbox := outbox watchedState @ new\<rparr>"
     "\<forall>sid u. sid \<in> set (rooms watchedState (game_id game3)) \<longrightarrow> socketUser watchedState sid = Some u \<longrightarrow>
            deliveries sid new = [(''update-opened-game'', View (parseGameForUser exampleServices game3 u))]"
     "\<forall>sid. socketUser watchedState sid = None \<longrightarrow> deliveries sid new = []"
     "\<forall>sid. sid \<notin> set (rooms watchedState (game_id game3)) \<longrightarrow> deliveries sid new = []"
    by blast
  have "deliveries ''w1'' new = [(''update-opened-game'', View ''g3/alice'')]"
    using new(2) r u p by simp
  moreover have "deliveries ''w2'' new = [(''update-opened-game'', View ''g3/bob'')]"
    using new(2) r u p by simp
  moreover have "deliveries ''anon'' new = []"
    using new(3) u by simp
  moreover have "deliveries ''c1'' new = []"
    using new(4) r by simp
  ultimately show ?thesis
    using h o new(1) by blast
qed

subsection \<open>Failed mutations\<close>

text \<open>
  Against claim C4 as stated. With a game service that rejects every \<open>joinGame\<close>,
  a \<open>new-game\<close> has created its game, logged the \<open>create\<close> entry and announced the
  game to everyone before the \<open>join-game\<close> handler it runs is rejected: a mutation
  step of the command has failed in the game service, yet a log entry and a global
  broadcast are there. And when \<open>openGame\<close> throws an error without \<open>response\<close>, the
  handler ends in its \<open>catch\<close> block: no \<open>error-message\<close> reaches the caller.
\<close>

theorem rejected_join_of_new_game:
  "mutationError joinRejecting (db watchedState) alice (NewGame ''chess'')
     = Some (Response ''Game is full'')
   \<and> map req_type (logs (handle joinRejecting ''w1'' alice (NewGame ''chess'') watchedState))
       = [''create'']
   \<and> outbox (handle joinRejecting ''w1'' alice (NewGame ''chess'') watchedState)
       = [ToAll ''new-game'' (View ''g3''),
          ToSocket ''w1'' [] NoPayload,
          ToSocket ''w1'' ''error-message'' (ErrorMessage ''Game is full'')]
   \<and> mutationError openCrashing (db watchedState) alice (OpenGame 3) = Some NoResponse
   \<and> handle openCrashing ''w1'' alice (OpenGame 3) watchedState = watchedState
   \<and> deliveries ''w1'' (outbox (handle openCrashing ''w1'' alice (OpenGame 3) watchedState)) = []"
  by (simp add: handler_defs gateway_defs example_defs thrownBy_def)

text \<open>
  Claim C4, as the code has it. The game service rejects a mutation of the command
  with an error whose \<open>response\<close> carries the message \<open>m\<close>. Then exactly one
  \<open>error-message\<close> reaches the calling socket, carrying \<open>m\<close>; no other socket is sent
  anything; the rooms are unchanged. If the rejected call is the first mutation of
  the command, the handler changes nothing but the outbox and the error logger: no
  log entry is created, the store is as before, and every message emitted is
  addressed to the calling socket (\<open>join-game\<close> emits an event with the empty name
  to the caller before the \<open>error-message\<close>). If it is the \<open>joinGame\<close> that
  \<open>new-game\<close> runs after creating the game, the \<open>create\<close> entry, the store after it
  and the global \<open>new-game\<close> that went before stay. What happens on an error without
  \<open>response\<close> is not part of this statement.
\<close>

theorem failed_mutation_reports_to_caller_only:
  fixes m :: string
  assumes "mutationError svc (db s) user cmd = Some (Response m)"
  shows "handle svc client user cmd s =
           (case createdBefore svc (db s) user cmd of
              None \<Rightarrow>
                s\<lparr>loggerErrors := loggerErrors s @ [m],
                  outbox := outbox s
                    @ (case cmd of JoinGame n \<Rightarrow> [ToSocket client [] NoPayload] | _ \<Rightarrow> [])
                    @ [ToSocket client ''error-message'' (ErrorMessage m)]\<rparr>
            | Some (g, d2) \<Rightarrow>
                s\<lparr>db := d2,
                  logs := logs s @ [entry ''create'' user g None],
                  loggerErrors := loggerErrors s @ [m],
                  outbox := outbox s
                    @ [ToAll ''new-game'' (View (parseGameForAllUsers svc g)),
                       ToSocket client [] NoPayload,
                       ToSocket client ''error-message'' (ErrorMessage m)]\<rparr>)
       \<and> rooms (handle svc client user cmd s) = rooms s
       \<and> (\<exists>es. outbox (handle svc client user cmd s) = outbox s @ es
             \<and> filter (\<lambda>(ev, p). ev = ''error-message'') (deliveries client es)
                 = [(''error-message'', ErrorMessage m)]
             \<and> (\<forall>sid. sid \<noteq> client \<longrightarrow> deliveries sid es = [])
             \<and> (createdBefore svc (db s) user cmd = None \<longrightarrow>
                  (\<forall>e \<in> set es. \<exists>ev p. e = ToSocket client ev p)))
       \<and> (createdBefore svc (db s) user cmd = None \<longrightarrow>
             logs (handle svc client user cmd s) = logs s
           \<and> db (handle svc client user cmd s) = db s)"
proof -
  let ?err = "ToSocket client ''error-message'' (ErrorMessage m)"
  let ?pre = "(case cmd of JoinGame n \<Rightarrow> [ToSocket client [] NoPayload] | _ \<Rightarrow> [])"
  let ?A = "s\<lparr>loggerErrors := loggerErrors s @ [m], outbox := outbox s @ ?pre @ [?err]\<rparr>"
  let ?B = "\<lambda>g d2. s\<lparr>db := d2,
                  logs := logs s @ [entry ''create'' user g None],
                  loggerErrors := loggerErrors s @ [m],
                  outbox := outbox s
                    @ [ToAll ''new-game'' (View (parseGameForAllUsers svc g)),
                       ToSocket client [] NoPayload, ?err]\<rparr>"
  let ?h = "handle svc client user cmd s"
  have first: "?h = ?A" if "createdBefore svc (db s) user cmd = None"
  proof (cases cmd)
    case (NewGame name)
    show ?thesis
    proof (cases "gs_newGame svc (db s) name (user_id user)")
      case (Inl e)
      with assms NewGame have "e = Response m" by simp
      with Inl NewGame show ?thesis
        by (simp add: newGame_def emit_defs)
    next
      case (Inr gd)
      obtain g d1 where gd: "gd = (g, d1)" by (cases gd) auto
      from that NewGame Inr gd
      have "\<exists>e. logCreate svc d1 \<lparr>req_type = ''create'', req_user = user,
                    req_gameId = game_id g, req_text = None\<rparr> = Inl e"
        by (auto split: sum.splits)
      with assms NewGame Inr gd show ?thesis by auto
    qed
  next
    case (JoinGame n)
    with assms show ?thesis
      by (simp add: thrownBy_Some joinGame_def emit_defs)
  next
    case (OpenGame n)
    with assms show ?thesis
      by (simp add: thrownBy_Some openGame_def emit_defs)
  next
    case (WatchGame n)
    with assms show ?thesis
      by (simp add: thrownBy_Some watchGame_def emit_defs)
  next
    case (LeaveGame n)
    with assms show ?thesis
      by (simp add: thrownBy_Some leaveGame_def emit_defs)
  next
    case CloseGame
    with assms show ?thesis
      by (auto simp: thrownBy_Some closeGame_def emit_defs split: option.splits)
  next
    case (RemoveGame n)
    with assms show ?thesis
      by (simp add: thrownBy_Some removeGame_def emit_defs)
  next
    case ToggleReady
    with assms show ?thesis
      by (auto simp: thrownBy_Some toggleReady_def emit_defs split: option.splits)
  next
    case (UpdateOption n name val)
    with assms show ?thesis
      by (simp add: thrownBy_Some updateOption_def emit_defs)
  next
    case (StartGame n)
    with assms show ?thesis
      by (simp add: thrownBy_Some startGame_def emit_defs)
  next
    case (MakeMove n mv)
    with assms show ?thesis
      by (auto simp: thrownBy_Some move_def emit_defs split: if_splits)
  qed
  have second: "?h = ?B g d2" if c: "createdBefore svc (db s) user cmd = Some (g, d2)" for g d2
  proof -
    from c obtain name where cmd: "cmd = NewGame name"
      by (cases cmd) simp_all
    from c cmd obtain d1 l
      where n: "gs_newGame svc (db s) name (user_id user) = Inr (g, d1)"
        and l: "logCreate svc d1 \<lparr>req_type = ''create'', req_user = user,
                    req_gameId = game_id g, req_text = None\<rparr> = Inr (l, d2)"
      by (auto split: sum.splits)
    from assms cmd n l have j: "gs_joinGame svc d2 user (game_number g) = Inl (Response m)"
      by (simp add: thrownBy_Some)
    show ?thesis
      using newGame_failed_join [OF n l j, of client] cmd by (simp add: entry_def)
  qed
  have eq: "?h = (case createdBefore svc (db s) user cmd of
                    None \<Rightarrow> ?A | Some (g, d2) \<Rightarrow> ?B g d2)"
    using first second by (cases "createdBefore svc (db s) user cmd") auto
  have rooms: "rooms ?h = rooms s"
    using first second by (cases "createdBefore svc (db s) user cmd") auto
  have frame: "createdBefore svc (db s) user cmd = None \<longrightarrow> logs ?h = logs s \<and> db ?h = db s"
    using first by simp
  have out: "\<exists>es. outbox ?h = outbox s @ es
             \<and> filter (\<lambda>(ev, p). ev = ''error-message'') (deliveries client es)
                 = [(''error-message'', ErrorMessage m)]
             \<and> (\<forall>sid. sid \<noteq> client \<longrightarrow> deliveries sid es = [])
             \<and> (createdBefore svc (db s) user cmd = None \<longrightarrow>
                  (\<forall>e \<in> set es. \<exists>ev p. e = ToSocket client ev p))"
  proof (cases "createdBefore svc (db s) user cmd")
    case None
    have "outbox ?h = outbox s @ (?pre @ [?err])"
      using first [OF None] by simp
    moreover have "filter (\<lambda>(ev, p). ev = ''error-message'') (deliveries client (?pre @ [?err]))
                 = [(''error-message'', ErrorMessage m)]"
      by (cases cmd) auto
    moreover have "\<forall>sid. sid \<noteq> client \<longrightarrow> deliveries sid (?pre @ [?err]) = []"
      by (cases cmd) auto
    moreover have "\<forall>e \<in> set (?pre @ [?err]). \<exists>ev p. e = ToSocket client ev p"
      by (cases cmd) auto
    ultimately show ?thesis by blast
  next
    case (Some gd)
    obtain g d2 where gd: "gd = (g, d2)" by (cases gd) auto
    let ?es = "[ToAll ''new-game'' (View (parseGameForAllUsers svc g)),
                ToSocket client [] NoPayload, ?err]"
    have "outbox ?h = outbox s @ ?es"
      using second [of g d2] Some gd by simp
    moreover have "filter (\<lambda>(ev, p). ev = ''error-message'') (deliveries client ?es)
                 = [(''error-message'', ErrorMessage m)]"
      by simp
    moreover have "\<forall>sid. sid \<noteq> client \<longrightarrow> deliveries sid ?es = []"
      by simp
    ultimately show ?thesis
      using Some by (intro exI [of _ ?es]) simp
  qed
  show ?thesis
    using eq rooms out frame by blast
qed

theorem failed_mutation_reports_to_caller_only_witness:
  "mutationError exampleServices (db watchedState) alice (JoinGame 7)
     = Some (Response ''Game not found'')
   \<and> createdBefore exampleServices (db watchedState) alice (JoinGame 7) = None
   \<and> handle exampleServices ''w1'' alice (JoinGame 7) watchedState =
       watchedState\<lparr>loggerErrors := [''Game not found''],
                    outbox := [ToSocket ''w1'' [] NoPayload,
                               ToSocket ''w1'' ''error-message'' (ErrorMessage ''Game not found'')]\<rparr>
   \<and> logs (handle exampleServices ''w1'' alice (JoinGame 7) watchedState) = []
   \<and> mutationError joinRejecting (db watchedState) alice (NewGame ''chess'')
       = Some (Response ''Game is full'')
   \<and> createdBefore joinRejecting (db watchedState) alice (NewGame ''chess'') = Some (game3, 2)
   \<and> handle joinRejecting ''w1'' alice (NewGame ''chess'') watchedState =
       watchedState\<lparr>db := 2,
                    logs := [entry ''create'' alice game3 None],
                    loggerErrors := [''Game is full''],
                    outbox := [ToAll ''new-game'' (View ''g3''),
                               ToSocket ''w1'' [] NoPayload,
                               ToSocket ''w1'' ''error-message'' (ErrorMessage ''Game is full'')]\<rparr>"
proof -
  have h: "mutationError exampleServices (db watchedState) alice (JoinGame 7)
             = Some (Response ''Game not found'')"
    by (simp add: thrownBy_def exampleServices_def exampleCall_def)
  have c: "createdBefore exampleServices (db watchedState) alice (JoinGame 7) = None"
    by simp
  have h': "mutationError joinRejecting (db watchedState) alice (NewGame ''chess'')
              = Some (Response ''Game is full'')"
    by (simp add: thrownBy_def example_defs)
  have c': "createdBefore joinRejecting (db watchedState) alice (NewGame ''chess'') = Some (game3, 2)"
    by (simp add: example_defs)
  have e: "loggerErrors watchedState = []" "outbox watchedState = []" "logs watchedState = []"
    by (simp_all add: watchedState_def initialState_def)
  have p: "parseGameForAllUsers joinRejecting game3 = ''g3''"
    by (simp add: example_defs)
  show ?thesis
    using h c h' c' e p
      failed_mutation_reports_to_caller_only [OF h, of "''w1''"]
      failed_mutation_reports_to_caller_only [OF h', of "''w1''"]
    by simp
qed
subsection \<open>Log entries per command\<close>

text \<open>
  Against claim C1 as stated: a \<open>new-game\<close> handled without any error appends two
  entries, \<open>create\<close> and \<open>join\<close>, and a \<open>remove-game\<close> that succeeds (its global
  message is emitted) appends none.
\<close>

theorem new_game_appends_two_entries:
  "logs watchedState = []
   \<and> map req_type (logs (handle exampleServices ''w1'' alice (NewGame ''chess'') watchedState))
       = [''create'', ''join'']
   \<and> loggerErrors (handle exampleServices ''w1'' alice (NewGame ''chess'') watchedState) = []
   \<and> logs (handle exampleServices ''w1'' alice (RemoveGame 3) watchedState) = []
   \<and> loggerErrors (handle exampleServices ''w1'' alice (RemoveGame 3) watchedState) = []
   \<and> ToAll ''remove-game'' (GameNumber 3)
       \<in> set (outbox (handle exampleServices ''w1'' alice (RemoveGame 3) watchedState))"
  by (simp add: handler_defs gateway_defs example_defs)

text \<open>
  Claim C1, as the code has it. A command is committed when the calls its handler
  makes to the game service and to the log service all succeed. A committed command
  appends: one entry of its type for \<open>join-game\<close>, \<open>open-game\<close>, \<open>watch-game\<close>,
  \<open>leave-game\<close>, \<open>close-game\<close>, \<open>toggle-ready\<close>, \<open>update-option\<close> and \<open>start-game\<close>;
  \<open>move\<close> for \<open>make-move\<close>, followed by \<open>finish\<close> when the game that \<open>makeMove\<close>
  returned is finished; \<open>create\<close> followed by \<open>join\<close> for \<open>new-game\<close>, which runs the
  \<open>join-game\<close> handler; nothing for \<open>remove-game\<close>. Every entry names the caller.
\<close>

theorem log_entries_per_command:
  assumes "committed svc (db s) user cmd"
  shows "\<exists>new. logs (handle svc client user cmd s) = logs s @ new
     \<and> (\<forall>r \<in> set new. req_user r = user)
     \<and> map req_type new =
        (case cmd of
           NewGame name \<Rightarrow> [''create'', ''join'']
         | JoinGame n \<Rightarrow> [''join'']
         | OpenGame n \<Rightarrow> [''open'']
         | WatchGame n \<Rightarrow> [''watch'']
         | LeaveGame n \<Rightarrow> [''leave'']
         | CloseGame \<Rightarrow> [''close'']
         | RemoveGame n \<Rightarrow> []
         | ToggleReady \<Rightarrow> [''ready'']
         | UpdateOption n name val \<Rightarrow> [''update'']
         | StartGame n \<Rightarrow> [''start'']
         | MakeMove n mv \<Rightarrow>
             (case gs_makeMove svc (db s) mv n (user_id user) of
                Inl error \<Rightarrow> []
              | Inr (g, d) \<Rightarrow> if game_state g = GAME_FINISHED svc
                               then [''move'', ''finish''] else [''move'']))"
proof (cases cmd)
  case (NewGame name)
  with assms have "committed svc (db s) user (NewGame name)" by simp
  then obtain g d1 l d2
    where n: "gs_newGame svc (db s) name (user_id user) = Inr (g, d1)"
      and c: "logCreate svc d1 (entry ''create'' user g None) = Inr (l, d2)"
      and j: "logged svc user ''join'' (gs_joinGame svc d2 user (game_number g))"
    by (rule committed_newGameD)
  from loggedD [OF j] obtain g' d3 l' d4
    where "gs_joinGame svc d2 user (game_number g) = Inr (g', d3)"
      and "logCreate svc d3 (entry ''join'' user g' None) = Inr (l', d4)"
    by blast
  with n c have "logs (newGame svc client user name s)
                   = logs s @ [entry ''create'' user g None, entry ''join'' user g' None]"
    by (rule logs_newGame)
  with NewGame show ?thesis
    by (intro exI [of _ "[entry ''create'' user g None, entry ''join'' user g' None]"])
       (simp add: entry_def)
next
  case (JoinGame n)
  with assms have "logged svc user ''join'' (gs_joinGame svc (db s) user n)" by simp
  from loggedD [OF this] obtain g d1 l d2
    where "gs_joinGame svc (db s) user n = Inr (g, d1)"
      and "logCreate svc d1 (entry ''join'' user g None) = Inr (l, d2)"
    by blast
  then have "logs (joinGame svc client user n s) = logs s @ [entry ''join'' user g None]"
    by (rule logs_joinGame)
  with JoinGame show ?thesis
    by (intro exI [of _ "[entry ''join'' user g None]"]) (simp add: entry_def)
next
  case (OpenGame n)
  with assms have "logged svc user ''open'' (gs_openGame svc (db s) user n)" by simp
  from loggedD [OF this] obtain g d1 l d2
    where "gs_openGame svc (db s) user n = Inr (g, d1)"
      and "logCreate svc d1 (entry ''open'' user g None) = Inr (l, d2)"
    by blast
  then have "logs (openGame svc client user n s) = logs s @ [entry ''open'' user g None]"
    by (rule logs_openGame)
  with OpenGame show ?thesis
    by (intro exI [of _ "[entry ''open'' user g None]"]) (simp add: entry_def)
next
  case (WatchGame n)
  with assms have "logged svc user ''watch'' (gs_watchGame svc (db s) user n)" by simp
  from loggedD [OF this] obtain g d1 l d2
    where "gs_watchGame svc (db s) user n = Inr (g, d1)"
      and "logCreate svc d1 (entry ''watch'' user g None) = Inr (l, d2)"
    by blast
  then have "logs (watchGame svc client user n s) = logs s @ [entry ''watch'' user g None]"
    by (rule logs_watchGame)
  with WatchGame show ?thesis
    by (intro exI [of _ "[entry ''watch'' user g None]"]) (simp add: entry_def)
next
  case (LeaveGame n)
  with assms have "logged svc user ''leave'' (gs_leaveGame svc (db s) user n)" by simp
  from loggedD [OF this] obtain g d1 l d2
    where "gs_leaveGame svc (db s) user n = Inr (g, d1)"
      and "logCreate svc d1 (entry ''leave'' user g None) = Inr (l, d2)"
    by blast
  then have "logs (leaveGame svc client user n s) = logs s @ [entry ''leave'' user g None]"
    by (rule logs_leaveGame)
  with LeaveGame show ?thesis
    by (intro exI [of _ "[entry ''leave'' user g None]"]) (simp add: entry_def)
next
  case CloseGame
  with assms obtain og where og: "openedGame user = Some og"
      and "logged svc user ''close'' (gs_closeGame svc (db s) user (ref_number og))"
    by (auto split: option.splits)
  from loggedD [OF this(2)] obtain g d1 l d2
    where "gs_closeGame svc (db s) user (ref_number og) = Inr (g, d1)"
      and "logCreate svc d1 (entry ''close'' user g None) = Inr (l, d2)"
    by blast
  with og have "logs (closeGame svc client user s) = logs s @ [entry ''close'' user g None]"
    by (rule logs_closeGame)
  with CloseGame show ?thesis
    by (intro exI [of _ "[entry ''close'' user g None]"]) (simp add: entry_def)
next
  case (RemoveGame n)
  then show ?thesis by (simp add: logs_removeGame)
next
  case ToggleReady
  with assms obtain og where og: "openedGame user = Some og"
      and "logged svc user ''ready'' (gs_toggleReady svc (db s) user (ref_number og))"
    by (auto split: option.splits)
  from loggedD [OF this(2)] obtain g d1 l d2
    where "gs_toggleReady svc (db s) user (ref_number og) = Inr (g, d1)"
      and "logCreate svc d1 (entry ''ready'' user g None) = Inr (l, d2)"
    by blast
  with og have "logs (toggleReady svc client user s) = logs s @ [entry ''ready'' user g None]"
    by (rule logs_toggleReady)
  with ToggleReady show ?thesis
    by (intro exI [of _ "[entry ''ready'' user g None]"]) (simp add: entry_def)
next
  case (UpdateOption n name val)
  with assms have "logged svc user ''update'' (gs_updateOption svc (db s) user n name val)"
    by simp
  from loggedD [OF this] obtain g d1 l d2
    where "gs_updateOption svc (db s) user n name val = Inr (g, d1)"
      and "logCreate svc d1 (entry ''update'' user g None) = Inr (l, d2)"
    by blast
  then have "logs (updateOption svc client user n name val s)
               = logs s @ [entry ''update'' user g None]"
    by (rule logs_updateOption)
  with UpdateOption show ?thesis
    by (intro exI [of _ "[entry ''update'' user g None]"]) (simp add: entry_def)
next
  case (StartGame n)
  with assms have "logged svc user ''start'' (gs_startGame svc (db s) n)" by simp
  from loggedD [OF this] obtain g d1 l d2
    where "gs_startGame svc (db s) n = Inr (g, d1)"
      and "logCreate svc d1 (entry ''start'' user g None) = Inr (l, d2)"
    by blast
  then have "logs (startGame svc client user n s) = logs s @ [entry ''start'' user g None]"
    by (rule logs_startGame)
  with StartGame show ?thesis
    by (intro exI [of _ "[entry ''start'' user g None]"]) (simp add: entry_def)
next
  case (MakeMove n mv)
  with assms have "committed svc (db s) user (MakeMove n mv)" by simp
  then obtain g d1 l d2
    where p: "isPlayer user n"
      and m: "gs_makeMove svc (db s) mv n (user_id user) = Inr (g, d1)"
      and l: "logCreate svc d1 (entry ''move'' user g (Some mv)) = Inr (l, d2)"
      and f: "game_state g \<noteq> GAME_FINISHED svc
              \<or> succeeded (logCreate svc d2 (entry ''finish'' user g None))"
    by (rule committed_moveD)
  show ?thesis
  proof (cases "game_state g = GAME_FINISHED svc")
    case False
    with p m l have "logs (move svc client user n mv s)
                       = logs s @ [entry ''move'' user g (Some mv)]"
      by (rule logs_move)
    with MakeMove m False show ?thesis
      by (intro exI [of _ "[entry ''move'' user g (Some mv)]"]) (simp add: entry_def)
  next
    case True
    with f obtain l' d3 where "logCreate svc d2 (entry ''finish'' user g None) = Inr (l', d3)"
      by (cases "logCreate svc d2 (entry ''finish'' user g None)")
         (auto simp: succeeded_def)
    with p m l True have "logs (move svc client user n mv s)
                       = logs s @ [entry ''move'' user g (Some mv), entry ''finish'' user g None]"
      by (rule logs_move_finish)
    with MakeMove m True show ?thesis
      by (intro exI [of _ "[entry ''move'' user g (Some mv), entry ''finish'' user g None]"])
         (simp add: entry_def)
  qed
qed

theorem log_entries_per_command_witness:
  "committed exampleServices (db watchedState) alice (MakeMove 3 ''mate'')
   \<and> (\<exists>new. logs (handle exampleServices ''w1'' alice (MakeMove 3 ''mate'') watchedState)
               = logs watchedState @ new
        \<and> (\<forall>r \<in> set new. req_user r = alice)
        \<and> map req_type new = [''move'', ''finish''])"
proof -
  have h: "committed exampleServices (db watchedState) alice (MakeMove 3 ''mate'')"
    by (simp add: example_defs isPlayer_def succeeded_def entry_def)
  have g: "gs_makeMove exampleServices (db watchedState) ''mate'' 3 (user_id alice)
             = Inr (game3\<lparr>game_state := 2\<rparr>, 1)"
    by (simp add: example_defs)
  have f: "GAME_FINISHED exampleServices = 2"
    by (simp add: example_defs)
  show ?thesis
    using h log_entries_per_command [OF h] g f by simp
qed
subsection \<open>Removing a game\<close>

text \<open>
  Against claim C3 as stated: after a \<open>remove-game\<close> on game 3, whose room holds the
  watchers \<open>w1\<close> and \<open>w2\<close> and the socket \<open>anon\<close> without identity, the two watchers
  have received the kick signal but the room index is what it was, and \<open>anon\<close> has
  received nothing.
\<close>

theorem remove_game_keeps_room_index:
  "rooms watchedState ''g3'' = [''w1'', ''anon'', ''w2'']
   \<and> rooms (removeGame exampleServices ''w1'' alice 3 watchedState) ''g3''
       = [''w1'', ''anon'', ''w2'']
   \<and> outbox (removeGame exampleServices ''w1'' alice 3 watchedState)
       = [ToSocket ''w1'' ''update-opened-game'' Null,
          ToSocket ''w2'' ''update-opened-game'' Null,
          ToAll ''remove-game'' (GameNumber 3)]
   \<and> deliveries ''anon'' (outbox (removeGame exampleServices ''w1'' alice 3 watchedState)) = []"
  by (simp add: removeGame_def gateway_defs example_defs)

text \<open>
  Claim C3, as the code has it. When the game is found, the removal succeeds and
  the invites of the game are closed, \<open>removeGame\<close> leaves the store as
  \<open>closeInvites\<close> returned it and appends to the outbox one kick signal
  (\<open>update-opened-game\<close> with \<open>null\<close>) for each socket of the game's room that has an
  identity, and nothing for the others, followed by the global \<open>remove-game\<close> with
  the game number. The room index is not changed: no socket leaves the room.
\<close>

theorem remove_game_kicks_identified_sockets:
  assumes "findOne svc (db s) gameNumber = Some g"
      and "gs_removeGame svc (db s) user gameNumber = Inr d1"
      and "closeInvites svc d1 (game_id g) = Inr d2"
      and "distinct (rooms s (game_id g))"
  shows "\<exists>kicks. removeGame svc client user gameNumber s =
             s\<lparr>db := d2,
               outbox := outbox s @ kicks @ [ToAll ''remove-game'' (GameNumber gameNumber)]\<rparr>
     \<and> (\<forall>e \<in> set kicks. \<exists>sid u. sid \<in> set (rooms s (game_id g)) \<and> socketUser s sid = Some u
            \<and> e = ToSocket sid ''update-opened-game'' Null)
     \<and> (\<forall>sid u. sid \<in> set (rooms s (game_id g)) \<longrightarrow> socketUser s sid = Some u \<longrightarrow>
            deliveries sid kicks = [(''update-opened-game'', Null)])
     \<and> (\<forall>sid. socketUser s sid = None \<longrightarrow> deliveries sid kicks = [])
     \<and> rooms (removeGame svc client user gameNumber s) = rooms s
     \<and> logs (removeGame svc client user gameNumber s) = logs s"
proof -
  let ?room = "rooms s (game_id g)"
  let ?kicks = "kickMessages (socketUser s) ?room"
  have eq: "removeGame svc client user gameNumber s =
             s\<lparr>db := d2,
               outbox := outbox s @ ?kicks @ [ToAll ''remove-game'' (GameNumber gameNumber)]\<rparr>"
    using assms(1-3)
    by (simp add: removeGame_def kickUsersFromGame_def serverEmit_def kickMessages_def)
  moreover have "\<forall>e \<in> set ?kicks. \<exists>sid u. sid \<in> set ?room \<and> socketUser s sid = Some u
            \<and> e = ToSocket sid ''update-opened-game'' Null"
    using set_kickMessages by fast
  moreover have "\<forall>sid u. sid \<in> set ?room \<longrightarrow> socketUser s sid = Some u \<longrightarrow>
            deliveries sid ?kicks = [(''update-opened-game'', Null)]"
    using assms(4) by (simp add: deliveries_kickMessages concat_map_single)
  moreover have "\<forall>sid. socketUser s sid = None \<longrightarrow> deliveries sid ?kicks = []"
    by (auto simp: deliveries_kickMessages)
  moreover have "rooms (removeGame svc client user gameNumber s) = rooms s"
      "logs (removeGame svc client user gameNumber s) = logs s"
    by (simp_all add: eq)
  ultimately show ?thesis by blast
qed

theorem remove_game_kicks_identified_sockets_witness:
  "findOne exampleServices (db watchedState) 3 = Some game3
   \<and> gs_removeGame exampleServices (db watchedState) alice 3 = Inr 1
   \<and> closeInvites exampleServices 1 (game_id game3) = Inr 2
   \<and> distinct (rooms watchedState (game_id game3))
   \<and> (\<exists>kicks. removeGame exampleServices ''w1'' alice 3 watchedState =
             watchedState\<lparr>db := 2,
               outbox := outbox watchedState @ kicks @ [ToAll ''remove-game'' (GameNumber 3)]\<rparr>
        \<and> deliveries ''w1'' kicks = [(''update-opened-game'', Null)]
        \<and> deliveries ''w2'' kicks = [(''update-opened-game'', Null)]
        \<and> deliveries ''anon'' kicks = [])
   \<and> rooms (removeGame exampleServices ''w1'' alice 3 watchedState) = rooms watchedState"
proof -
  have 1: "findOne exampleServices (db watchedState) 3 = Some game3"
    by (simp add: example_defs)
  have 2: "gs_removeGame exampleServices (db watchedState) alice 3 = Inr 1"
    by (simp add: example_defs)
  have 3: "closeInvites exampleServices 1 (game_id game3) = Inr 2"
    by (simp add: example_defs)
  have 4: "distinct (rooms watchedState (game_id game3))"
    by (simp add: example_defs)
  have r: "rooms watchedState (game_id game3) = [''w1'', ''anon'', ''w2'']"
    by (simp add: example_defs)
  have u: "socketUser watchedState ''w1'' = Some alice" "socketUser watchedState ''w2'' = Some bob"
    "socketUser watchedState ''anon'' = None"
    by (simp_all add: watchedState_def initialState_def)
  from remove_game_kicks_identified_sockets [OF 1 2 3 4, of "''w1''"]
  obtain kicks where k: "removeGame exampleServices ''w1'' alice 3 watchedState =
             watchedState\<lparr>db := 2,
               outbox := outbox watchedState @ kicks @ [ToAll ''remove-game'' (GameNumber 3)]\<rparr>"
     "\<forall>sid u. sid \<in> set (rooms watchedState (game_id game3)) \<longrightarrow> socketUser watchedState sid = Some u \<longrightarrow>
            deliveries sid kicks = [(''update-opened-game'', Null)]"
     "\<forall>sid. socketUser watchedState sid = None \<longrightarrow> deliveries sid kicks = []"
     "rooms (removeGame exampleServices ''w1'' alice 3 watchedState) = rooms watchedState"
    by blast
  have "deliveries ''w1'' kicks = [(''update-opened-game'', Null)]"
    using k(2) r u by simp
  moreover have "deliveries ''w2'' kicks = [(''update-opened-game'', Null)]"
    using k(2) r u by simp
  moreover have "deliveries ''anon'' kicks = []"
    using k(3) u by simp
  ultimately show ?thesis
    using 1 2 3 4 k(1,4) by blast
qed

subsection \<open>The connect guard window\<close>

text \<open>
  Claim C7 says that for every handshake token the first connect installs the
  guard and a connect after the window proceeds. The code does so for the tokens
  that pass its test (lemma \<open>guard_window\<close>), but not for every token the client
  may choose: \<open>constructor\<close> is the name of a property that the object
  \<open>connectTimers\<close> inherits, so the test \<open>this.connectTimers[token]\<close> succeeds on the
  very first connect with that token, in every state. The handler returns at once:
  it installs no guard and registers no timer, in the gateway as constructed and
  ever after, and no connect with that token is ever processed.
\<close>

theorem inherited_token_is_never_admitted:
  "guarded s ''constructor''
   \<and> handleConnection svc client ''constructor'' s = s
   \<and> connectTimers (handleConnection svc client ''constructor'' (initialState d)) ''constructor''
       = None
   \<and> pending (handleConnection svc client ''constructor'' (initialState d)) = []
   \<and> handleConnection svc client' ''constructor''
        (advance svc ms (handleConnection svc client ''constructor'' s))
       = advance svc ms s"
proof -
  have g: "guarded x ''constructor''" for x :: "('a, 'b) state"
    by (simp add: guarded_def inherited_def objectPrototypeKeys_def)
  then have "handleConnection svc client ''constructor'' x = x"
    for x :: "('a, 'b) state" and svc client
    by (simp add: handleConnection_def)
  then show ?thesis
    using g by (simp add: initialState_def)
qed

theorem inherited_token_is_never_admitted_witness:
  "guarded (initialState 0 :: (nat, string) state) ''constructor''
   \<and> connectTimers (initialState 0 :: (nat, string) state) ''constructor'' = None
   \<and> handleConnection exampleServices ''c1'' ''constructor'' (initialState 0) = initialState 0
   \<and> pending (handleConnection exampleServices ''c1'' ''constructor'' (initialState 0)) = []
   \<and> handleConnection exampleServices ''c2'' ''constructor''
        (advance exampleServices 4000
           (handleConnection exampleServices ''c1'' ''constructor'' (initialState 0)))
       = advance exampleServices 4000 (initialState 0)
   \<and> connectTimers (handleConnection exampleServices ''c2'' ''constructor''
        (advance exampleServices 4000
           (handleConnection exampleServices ''c1'' ''constructor'' (initialState 0))))
        ''constructor'' = None"
proof -
  note w = inherited_token_is_never_admitted
             [of "initialState 0 :: (nat, string) state" exampleServices "''c1''" 0 "''c2''" 4000]
  have "connectTimers (advance exampleServices 4000 (initialState 0 :: (nat, string) state))
          ''constructor'' = None"
    by (simp add: advance_def initialState_def nextDue_def runTimers.simps)
  with w inherited_token_is_never_admitted
           [of "advance exampleServices 4000 (initialState 0 :: (nat, string) state)"
               exampleServices "''c2''"]
  show ?thesis
    by (simp add: initialState_def)
qed
subsection \<open>The disconnect commit\<close>



subsection \<open>Reconnecting within the grace window\<close>




end
